theory Spec2Isabelle
  imports Complex_Main "HOL-Library.Multiset" "HOL-Library.List_Lexorder"
begin

section \<open>JavaScript values and numbers\<close>

text \<open>
  The scripts run on a JavaScript host. A report row field is either absent
  (\<open>undefined\<close>) or a string; a JavaScript number is a finite value, one of the two
  infinities, or NaN. Finite values are modelled as reals: the rounding of IEEE doubles
  and the negative zero are not modelled, so sums are exact.
\<close>

datatype jsval = Undefined | Str string

datatype jsnum = Num real | PInf | NInf | NaN

datatype js_error = TypeError | SpreadsheetError | MailError

text \<open>\<open>a + b\<close> on numbers.\<close>

fun js_add :: "jsnum \<Rightarrow> jsnum \<Rightarrow> jsnum" where
  "js_add (Num a) (Num b) = Num (a + b)"
| "js_add NaN _ = NaN"
| "js_add _ NaN = NaN"
| "js_add PInf NInf = NaN"
| "js_add NInf PInf = NaN"
| "js_add PInf _ = PInf"
| "js_add _ PInf = PInf"
| "js_add NInf _ = NInf"
| "js_add _ NInf = NInf"

fun js_neg :: "jsnum \<Rightarrow> jsnum" where
  "js_neg (Num a) = Num (- a)"
| "js_neg PInf = NInf"
| "js_neg NInf = PInf"
| "js_neg NaN = NaN"

text \<open>\<open>a - b\<close> on numbers.\<close>

definition js_sub :: "jsnum \<Rightarrow> jsnum \<Rightarrow> jsnum" where
  "js_sub a b = js_add a (js_neg b)"

text \<open>
  \<open>a / b\<close> on numbers: a zero divisor gives NaN for a zero dividend and an infinity
  otherwise; it never raises.
\<close>

fun js_div :: "jsnum \<Rightarrow> jsnum \<Rightarrow> jsnum" where
  "js_div (Num a) (Num b) =
     (if b \<noteq> 0 then Num (a / b) else if a = 0 then NaN else if 0 < a then PInf else NInf)"
| "js_div NaN _ = NaN"
| "js_div _ NaN = NaN"
| "js_div (Num a) PInf = Num 0"
| "js_div (Num a) NInf = Num 0"
| "js_div PInf (Num b) = (if 0 \<le> b then PInf else NInf)"
| "js_div NInf (Num b) = (if 0 \<le> b then NInf else PInf)"
| "js_div PInf PInf = NaN"
| "js_div PInf NInf = NaN"
| "js_div NInf PInf = NaN"
| "js_div NInf NInf = NaN"

text \<open>\<open>a > b\<close> on numbers: every comparison with NaN is false.\<close>

fun js_gt :: "jsnum \<Rightarrow> jsnum \<Rightarrow> bool" where
  "js_gt (Num a) (Num b) = (b < a)"
| "js_gt NaN _ = False"
| "js_gt _ NaN = False"
| "js_gt PInf PInf = False"
| "js_gt PInf _ = True"
| "js_gt _ PInf = False"
| "js_gt NInf _ = False"
| "js_gt _ NInf = True"

text \<open>\<open>n || d\<close> on numbers: NaN and 0 are falsy.\<close>

definition js_truthy :: "jsnum \<Rightarrow> bool" where
  "js_truthy n = (case n of Num r \<Rightarrow> r \<noteq> 0 | PInf \<Rightarrow> True | NInf \<Rightarrow> True | NaN \<Rightarrow> False)"

definition js_or :: "jsnum \<Rightarrow> jsnum \<Rightarrow> jsnum" where
  "js_or n d = (if js_truthy n then n else d)"

definition is_finite :: "jsnum \<Rightarrow> bool" where
  "is_finite n = (case n of Num r \<Rightarrow> True | PInf \<Rightarrow> False | NInf \<Rightarrow> False | NaN \<Rightarrow> False)"

text \<open>The sum of a list of numbers, as a spreadsheet or a reader would add them up.\<close>

definition js_sum :: "jsnum list \<Rightarrow> jsnum" where
  "js_sum xs = foldr js_add xs (Num 0)"

subsection \<open>Array.prototype.sort\<close>

text \<open>
  \<open>xs.sort(cmp)\<close>: the sort is stable, an element \<open>x\<close> goes after \<open>y\<close> only when
  \<open>cmp(x, y) > 0\<close>, and a comparator result of NaN counts as 0. For a consistent
  comparator the stable order is unique, and insertion computes it.
\<close>

fun js_insert :: "('a \<Rightarrow> 'a \<Rightarrow> jsnum) \<Rightarrow> 'a \<Rightarrow> 'a list \<Rightarrow> 'a list" where
  "js_insert cmp x [] = [x]"
| "js_insert cmp x (y # ys) =
     (if js_gt (cmp x y) (Num 0) then y # js_insert cmp x ys else x # y # ys)"

definition js_sort :: "('a \<Rightarrow> 'a \<Rightarrow> jsnum) \<Rightarrow> 'a list \<Rightarrow> 'a list" where
  "js_sort cmp xs = foldr (js_insert cmp) xs []"

subsection \<open>parseInt and parseFloat\<close>

text \<open>
  Both skip leading white space, read an optional sign and the longest prefix that is a
  numeral, and ignore what follows; with no numeral the result is NaN.
  \<open>parseFloat\<close> reads a decimal literal with an optional fraction and exponent (the
  literal \<open>Infinity\<close>, which no report field holds, is not recognised here);
  \<open>parseInt\<close> with no radix reads a hexadecimal numeral after \<open>0x\<close>.
  An absent field is first turned into the string \<open>undefined\<close>.
\<close>

definition is_ws :: "char \<Rightarrow> bool" where
  "is_ws c = (c \<in> set [CHR '' '', CHR 0x09, CHR 0x0A, CHR 0x0B, CHR 0x0C, CHR 0x0D])"

definition is_digit :: "char \<Rightarrow> bool" where
  "is_digit c = (48 \<le> (of_char c :: nat) \<and> (of_char c :: nat) \<le> 57)"

definition digit_val :: "char \<Rightarrow> nat" where
  "digit_val c = of_char c - 48"

definition digits_val :: "string \<Rightarrow> nat" where
  "digits_val ds = foldl (\<lambda>n c. 10 * n + digit_val c) 0 ds"

definition is_hex_digit :: "char \<Rightarrow> bool" where
  "is_hex_digit c =
     (is_digit c \<or> (65 \<le> (of_char c :: nat) \<and> (of_char c :: nat) \<le> 70)
                \<or> (97 \<le> (of_char c :: nat) \<and> (of_char c :: nat) \<le> 102))"

definition hex_digit_val :: "char \<Rightarrow> nat" where
  "hex_digit_val c =
     (if is_digit c then of_char c - 48
      else if (of_char c :: nat) \<le> 70 then of_char c - 55 else of_char c - 87)"

definition hex_val :: "string \<Rightarrow> nat" where
  "hex_val ds = foldl (\<lambda>n c. 16 * n + hex_digit_val c) 0 ds"

definition trim_start :: "string \<Rightarrow> string" where
  "trim_start s = dropWhile is_ws s"

text \<open>The optional sign: whether it is a minus, and the rest.\<close>

fun split_sign :: "string \<Rightarrow> bool \<times> string" where
  "split_sign [] = (False, [])"
| "split_sign (c # r) =
     (if c = CHR ''-'' then (True, r) else if c = CHR ''+'' then (False, r) else (False, c # r))"

definition signed :: "bool \<Rightarrow> real \<Rightarrow> real" where
  "signed neg r = (if neg then - r else r)"

definition to_string :: "jsval \<Rightarrow> string" where
  "to_string v = (case v of Undefined \<Rightarrow> ''undefined'' | Str s \<Rightarrow> s)"

text \<open>\<open>parseInt(s, 10)\<close>.\<close>

definition parseInt10 :: "string \<Rightarrow> jsnum" where
  "parseInt10 s =
     (let (neg, t) = split_sign (trim_start s); ds = takeWhile is_digit t
      in if ds = [] then NaN else Num (signed neg (real (digits_val ds))))"

text \<open>\<open>parseInt(v)\<close>.\<close>

definition parseInt :: "jsval \<Rightarrow> jsnum" where
  "parseInt v =
     (let (neg, t) = split_sign (trim_start (to_string v))
      in if take 2 t = ''0x'' \<or> take 2 t = ''0X''
         then (let hs = takeWhile is_hex_digit (drop 2 t)
               in if hs = [] then NaN else Num (signed neg (real (hex_val hs))))
         else (let ds = takeWhile is_digit t
               in if ds = [] then NaN else Num (signed neg (real (digits_val ds)))))"

text \<open>The exponent part of a decimal literal, 0 when there is none.\<close>

fun exponent_part :: "string \<Rightarrow> int" where
  "exponent_part [] = 0"
| "exponent_part (c # r) =
     (if c = CHR ''e'' \<or> c = CHR ''E''
      then (let (neg, t) = split_sign r; ds = takeWhile is_digit t
            in if ds = [] then 0 else (if neg then - int (digits_val ds) else int (digits_val ds)))
      else 0)"

definition scale10 :: "int \<Rightarrow> real \<Rightarrow> real" where
  "scale10 e m = (if 0 \<le> e then m * 10 ^ nat e else m / 10 ^ nat (- e))"

text \<open>\<open>parseFloat(s)\<close> on a string.\<close>

definition parseFloat_str :: "string \<Rightarrow> jsnum" where
  "parseFloat_str s =
     (let (neg, t) = split_sign (trim_start s);
          ip = takeWhile is_digit t;
          r1 = dropWhile is_digit t;
          dot = (case r1 of [] \<Rightarrow> False | c # _ \<Rightarrow> c = CHR ''.'');
          fp = (if dot then takeWhile is_digit (tl r1) else []);
          r2 = (if dot then dropWhile is_digit (tl r1) else r1)
      in if ip = [] \<and> fp = [] then NaN
         else Num (signed neg (scale10 (exponent_part r2)
                (real (digits_val ip) + real (digits_val fp) / 10 ^ length fp))))"

text \<open>\<open>parseFloat(v)\<close>.\<close>

definition parseFloat :: "jsval \<Rightarrow> jsnum" where
  "parseFloat v = parseFloat_str (to_string v)"

text \<open>\<open>v.replace(/,/g, '')\<close>: a TypeError on an absent field.\<close>

definition replace_commas :: "jsval \<Rightarrow> js_error + string" where
  "replace_commas v =
     (case v of Undefined \<Rightarrow> Inl TypeError | Str s \<Rightarrow> Inr (filter (\<lambda>c. c \<noteq> CHR '','') s))"

subsection \<open>Map\<close>

text \<open>
  A JavaScript \<open>Map\<close> keeps its keys in insertion order: an association list with
  distinct keys, where \<open>set\<close> on a present key keeps its place.
\<close>

definition map_has :: "('k \<times> 'v) list \<Rightarrow> 'k \<Rightarrow> bool" where
  "map_has m k = (map_of m k \<noteq> None)"

fun map_set :: "('k \<times> 'v) list \<Rightarrow> 'k \<Rightarrow> 'v \<Rightarrow> ('k \<times> 'v) list" where
  "map_set [] k v = [(k, v)]"
| "map_set ((k', v') # m) k v = (if k' = k then (k, v) # m else (k', v') # map_set m k v)"

text \<open>\<open>m.get(k)\<close> followed by a mutation \<open>f\<close> of the object found.\<close>

fun map_modify :: "('k \<times> 'v) list \<Rightarrow> 'k \<Rightarrow> ('v \<Rightarrow> 'v) \<Rightarrow> ('k \<times> 'v) list" where
  "map_modify [] k f = []"
| "map_modify ((k', v') # m) k f =
     (if k' = k then (k', f v') # m else (k', v') # map_modify m k f)"

definition map_values :: "('k \<times> 'v) list \<Rightarrow> 'v list" where
  "map_values m = map snd m"

definition map_keys :: "('k \<times> 'v) list \<Rightarrow> 'k list" where
  "map_keys m = map fst m"

section \<open>Daily email country performance\<close>

text \<open>
  A row of the campaign location target report. The criterion id is an attribute of
  every row; the metric fields are strings that may be absent or malformed.
\<close>

record target_row =
  CriteriaId :: string
  Clicks :: jsval
  Impressions :: jsval
  Cost :: jsval
  Conversions :: jsval

text \<open>The \<open>totals\<close> object, and a country's object, which has a name besides.\<close>

record totals =
  spend :: jsnum
  impressions :: jsnum
  clicks :: jsnum
  conversions :: jsnum

record country_stats = totals +
  name :: string

text \<open>An entry of \<open>countryReport\<close>: the country's object with \<open>ctr\<close> and \<open>cpc\<close>.\<close>

record country_entry = country_stats +
  ctr :: jsnum
  cpc :: jsnum

record report_data =
  countries :: "country_entry list"
  report_totals :: totals

definition zero_totals :: totals where
  "zero_totals = \<lparr>spend = Num 0, impressions = Num 0, clicks = Num 0, conversions = Num 0\<rparr>"

definition new_country :: "string \<Rightarrow> country_stats" where
  "new_country countryName =
     \<lparr>spend = Num 0, impressions = Num 0, clicks = Num 0, conversions = Num 0,
      name = countryName\<rparr>"

text \<open>The four \<open>+=\<close> statements, on a country's object and on \<open>totals\<close> alike.\<close>

definition add_metrics ::
  "jsnum \<Rightarrow> jsnum \<Rightarrow> jsnum \<Rightarrow> jsnum \<Rightarrow> 'a totals_scheme \<Rightarrow> 'a totals_scheme" where
  "add_metrics s i c v t =
     t\<lparr>spend := js_add (spend t) s, impressions := js_add (impressions t) i,
       clicks := js_add (clicks t) c, conversions := js_add (conversions t) v\<rparr>"

text \<open>\<open>locationMap\<close>, filled from the location criteria report: a later row wins.\<close>

definition locationMap_of :: "(string \<times> string) list \<Rightarrow> (string \<rightharpoonup> string)" where
  "locationMap_of locationRows = fold (\<lambda>(criteriaId, countryName) m. m(criteriaId \<mapsto> countryName))
     locationRows Map.empty"

text \<open>\<open>locationMap.get(criteriaId) || 'Unknown'\<close>: the empty name is falsy too.\<close>

definition country_name_of :: "(string \<rightharpoonup> string) \<Rightarrow> string \<Rightarrow> string" where
  "country_name_of locationMap criteriaId =
     (case locationMap criteriaId of None \<Rightarrow> ''Unknown''
      | Some n \<Rightarrow> if n = [] then ''Unknown'' else n)"

type_synonym country_state = "(string \<times> country_stats) list \<times> totals"

text \<open>
  The statements of the loop body that run when \<open>spend > 0\<close>: the country's object is
  created on its first row, then it and \<open>totals\<close> are increased.
\<close>

definition accumulate ::
  "string \<Rightarrow> jsnum \<Rightarrow> jsnum \<Rightarrow> jsnum \<Rightarrow> jsnum \<Rightarrow> country_state \<Rightarrow> country_state" where
  "accumulate countryName s i c v st =
     (let countryData = (if \<not> map_has (fst st) countryName
                         then map_set (fst st) countryName (new_country countryName)
                         else fst st)
      in (map_modify countryData countryName (add_metrics s i c v), add_metrics s i c v (snd st)))"

text \<open>The body of the \<open>while\<close> loop over the report's rows, for one row.\<close>

definition process_row ::
  "(string \<rightharpoonup> string) \<Rightarrow> target_row \<Rightarrow> country_state \<Rightarrow> js_error + country_state" where
  "process_row locationMap row st =
     (case replace_commas (Cost row) of
        Inl e \<Rightarrow> Inl e
      | Inr costStr \<Rightarrow>
          (if js_gt (parseFloat_str costStr) (Num 0) then
             (case replace_commas (Impressions row) of
                Inl e \<Rightarrow> Inl e
              | Inr imprStr \<Rightarrow>
                  (case replace_commas (Clicks row) of
                     Inl e \<Rightarrow> Inl e
                   | Inr clicksStr \<Rightarrow>
                       (case replace_commas (Conversions row) of
                          Inl e \<Rightarrow> Inl e
                        | Inr convStr \<Rightarrow>
                            Inr (accumulate (country_name_of locationMap (CriteriaId row))
                                   (parseFloat_str costStr) (parseInt10 imprStr)
                                   (parseInt10 clicksStr) (parseFloat_str convStr) st))))
           else Inr st))"

fun rows_loop ::
  "(string \<rightharpoonup> string) \<Rightarrow> target_row list \<Rightarrow> country_state \<Rightarrow> js_error + country_state" where
  "rows_loop locationMap [] st = Inr st"
| "rows_loop locationMap (row # rows) st =
     (case process_row locationMap row st of Inl e \<Rightarrow> Inl e
      | Inr st' \<Rightarrow> rows_loop locationMap rows st')"

text \<open>\<open>{...country, ctr: ..., cpc: ...}\<close>.\<close>

definition with_ratios :: "country_stats \<Rightarrow> country_entry" where
  "with_ratios country =
     \<lparr>spend = spend country, impressions = impressions country, clicks = clicks country,
      conversions = conversions country, name = name country,
      ctr = (if js_gt (impressions country) (Num 0)
             then js_div (clicks country) (impressions country) else Num 0),
      cpc = (if js_gt (clicks country) (Num 0)
             then js_div (spend country) (clicks country) else Num 0)\<rparr>"

text \<open>The comparator \<open>(a, b) => b.spend - a.spend\<close>.\<close>

definition by_spend_desc :: "'a totals_scheme \<Rightarrow> 'a totals_scheme \<Rightarrow> jsnum" where
  "by_spend_desc a b = js_sub (spend b) (spend a)"

text \<open>
  \<open>getCountryData\<close>, given the rows of its two reports. An exception in the
  \<open>try\<close> block (here: a method call on an absent field) is caught, and the empty
  report is returned.
\<close>

definition getCountryData :: "(string \<times> string) list \<Rightarrow> target_row list \<Rightarrow> report_data" where
  "getCountryData locationRows rows =
     (case rows_loop (locationMap_of locationRows) rows ([], zero_totals) of
        Inl e \<Rightarrow> \<lparr>countries = [], report_totals = zero_totals\<rparr>
      | Inr st \<Rightarrow>
          \<lparr>countries = js_sort by_spend_desc (map with_ratios (map_values (fst st))),
           report_totals = snd st\<rparr>)"

text \<open>
  The numbers of the TOTAL row of \<open>generateEmailHtml\<close>: the click-through rate cell is
  \<open>totals.clicks / totals.impressions\<close>, the cost-per-click cell is guarded.
\<close>

definition total_row_ctr :: "totals \<Rightarrow> jsnum" where
  "total_row_ctr t = js_div (clicks t) (impressions t)"

definition total_row_cpc :: "totals \<Rightarrow> jsnum" where
  "total_row_cpc t = (if js_gt (clicks t) (Num 0) then js_div (spend t) (clicks t) else Num 0)"

text \<open>
  \<open>sendEmailReport\<close>: the send is inside \<open>try\<close>/\<open>catch\<close>, and a failure of the mail
  service is written to the console. The mail body is kept as the report it renders.
\<close>

record country_mail =
  mail_to :: string
  mail_subject :: string
  mail_report :: report_data
  mail_date :: string

datatype console_line = ErrorSendingEmail js_error

record daily_world =
  sent :: "country_mail list"
  console :: "console_line list"

definition sendEmailReport ::
  "bool \<Rightarrow> report_data \<Rightarrow> string \<Rightarrow> string \<Rightarrow> string \<Rightarrow> daily_world \<Rightarrow> daily_world" where
  "sendEmailReport mail_up reportData date recipient subject w =
     (if mail_up
      then w\<lparr>sent := sent w @ [\<lparr>mail_to = recipient, mail_subject = subject,
                                  mail_report = reportData, mail_date = date\<rparr>]\<rparr>
      else w\<lparr>console := console w @ [ErrorSendingEmail MailError]\<rparr>)"

section \<open>Performance dashboard exporter: top countries\<close>

text \<open>A row of the geographic view report, and the object kept per country.\<close>

record geo_row =
  country_criterion_id :: string
  metrics_clicks :: jsval
  metrics_impressions :: jsval
  metrics_cost_micros :: jsval
  metrics_conversions_value :: jsval
  metrics_conversions :: jsval
  metrics_all_conversions :: jsval

record country_data =
  clicks :: jsnum
  impressions :: jsnum
  cost :: jsnum
  convValue :: jsnum
  conversions :: jsnum
  allConversions :: jsnum

text \<open>
  \<open>countryData\<close> is a plain object used as a dictionary. Its keys are country display
  names or \<open>Unknown (id)\<close> labels; for such keys (none is an array index or a member of
  \<open>Object.prototype\<close>) the object enumerates in insertion order, like a \<open>Map\<close>.
\<close>

text \<open>\<open>getCountryNames\<close>, given the rows of the geo target constant report.\<close>

definition getCountryNames :: "(string \<times> string) list \<Rightarrow> (string \<rightharpoonup> string)" where
  "getCountryNames constRows = fold (\<lambda>(id, nm) m. m(id \<mapsto> nm)) constRows Map.empty"

text \<open>\<open>countryNames[id] || `Unknown (${id})`\<close>.\<close>

definition country_label :: "(string \<rightharpoonup> string) \<Rightarrow> string \<Rightarrow> string" where
  "country_label countryNames countryCriterionId =
     (case countryNames countryCriterionId of
        None \<Rightarrow> ''Unknown ('' @ countryCriterionId @ '')''
      | Some n \<Rightarrow> if n = [] then ''Unknown ('' @ countryCriterionId @ '')'' else n)"

definition new_country_data :: country_data where
  "new_country_data = \<lparr>clicks = Num 0, impressions = Num 0, cost = Num 0, convValue = Num 0,
     conversions = Num 0, allConversions = Num 0\<rparr>"

text \<open>The six \<open>+=\<close> statements: each parsed field falls back to 0 through \<open>|| 0\<close>.\<close>

definition add_geo_row :: "geo_row \<Rightarrow> country_data \<Rightarrow> country_data" where
  "add_geo_row row d =
     d\<lparr>clicks := js_add (clicks d) (js_or (parseInt (metrics_clicks row)) (Num 0)),
       impressions := js_add (impressions d) (js_or (parseInt (metrics_impressions row)) (Num 0)),
       cost := js_add (cost d)
                 (js_div (js_or (parseFloat (metrics_cost_micros row)) (Num 0)) (Num 1000000)),
       convValue := js_add (convValue d) (js_or (parseFloat (metrics_conversions_value row)) (Num 0)),
       conversions := js_add (conversions d) (js_or (parseFloat (metrics_conversions row)) (Num 0)),
       allConversions :=
         js_add (allConversions d) (js_or (parseFloat (metrics_all_conversions row)) (Num 0))\<rparr>"

text \<open>The body of the loop over the report's rows.\<close>

definition aggregate_row ::
  "(string \<rightharpoonup> string) \<Rightarrow> geo_row \<Rightarrow> (string \<times> country_data) list
     \<Rightarrow> (string \<times> country_data) list" where
  "aggregate_row countryNames row countryData =
     (let countryName = country_label countryNames (country_criterion_id row);
          countryData1 = (if \<not> map_has countryData countryName
                          then map_set countryData countryName new_country_data
                          else countryData)
      in map_modify countryData1 countryName (add_geo_row row))"

definition aggregate_countries ::
  "(string \<rightharpoonup> string) \<Rightarrow> geo_row list \<Rightarrow> (string \<times> country_data) list" where
  "aggregate_countries countryNames rows = fold (aggregate_row countryNames) rows []"

text \<open>
  A row pushed to \<open>rows\<close>: the array
  \<open>[country, clicks, impressions, ctr, avgCpc, cost, convValue, roas, conversions,
  costPerConv, convRate, allConversions]\<close>, with a field per position.
\<close>

record sheet_row =
  col_country :: string
  col_clicks :: jsnum
  col_impressions :: jsnum
  col_ctr :: jsnum
  col_avgCpc :: jsnum
  col_cost :: jsnum
  col_convValue :: jsnum
  col_roas :: jsnum
  col_conversions :: jsnum
  col_costPerConv :: jsnum
  col_convRate :: jsnum
  col_allConversions :: jsnum

definition country_sheet_row :: "string \<times> country_data \<Rightarrow> sheet_row" where
  "country_sheet_row kd =
     (let country = fst kd; data = snd kd in
      \<lparr>col_country = country,
       col_clicks = clicks data,
       col_impressions = impressions data,
       col_ctr = (if js_gt (impressions data) (Num 0)
                  then js_div (clicks data) (impressions data) else Num 0),
       col_avgCpc = (if js_gt (clicks data) (Num 0)
                     then js_div (cost data) (clicks data) else Num 0),
       col_cost = cost data,
       col_convValue = convValue data,
       col_roas = (if js_gt (cost data) (Num 0)
                   then js_div (convValue data) (cost data) else Num 0),
       col_conversions = conversions data,
       col_costPerConv = (if js_gt (conversions data) (Num 0)
                          then js_div (cost data) (conversions data) else Num 0),
       col_convRate = (if js_gt (clicks data) (Num 0)
                       then js_div (conversions data) (clicks data) else Num 0),
       col_allConversions = allConversions data\<rparr>)"

text \<open>The comparator \<open>(a, b) => b[5] - a[5]\<close>: position 5 is the cost.\<close>

definition by_cost_desc :: "sheet_row \<Rightarrow> sheet_row \<Rightarrow> jsnum" where
  "by_cost_desc a b = js_sub (col_cost b) (col_cost a)"

text \<open>The rows that \<open>exportTopCountriesData\<close> writes below the header.\<close>

definition top_countries_rows :: "(string \<times> string) list \<Rightarrow> geo_row list \<Rightarrow> sheet_row list" where
  "top_countries_rows constRows rows =
     js_sort by_cost_desc
       (map country_sheet_row (aggregate_countries (getCountryNames constRows) rows))"

text \<open>
  The summary row, written below the rows when there is at least one, is made of
  spreadsheet formulas over them: \<open>=SUM(range)\<close>, and \<open>=IFERROR(x/y, 0)\<close>,
  which is 0 when the division fails.
\<close>

definition sheet_iferror_div :: "jsnum \<Rightarrow> jsnum \<Rightarrow> jsnum" where
  "sheet_iferror_div x y = (if is_finite (js_div x y) then js_div x y else Num 0)"

definition summary_row :: "sheet_row list \<Rightarrow> sheet_row" where
  "summary_row rs =
     (let b = js_sum (map col_clicks rs); c = js_sum (map col_impressions rs);
          f = js_sum (map col_cost rs); g = js_sum (map col_convValue rs);
          i = js_sum (map col_conversions rs)
      in \<lparr>col_country = ''Total'', col_clicks = b, col_impressions = c,
          col_ctr = sheet_iferror_div b c, col_avgCpc = sheet_iferror_div f b,
          col_cost = f, col_convValue = g, col_roas = sheet_iferror_div g f,
          col_conversions = i, col_costPerConv = sheet_iferror_div f i,
          col_convRate = sheet_iferror_div i b,
          col_allConversions = js_sum (map col_allConversions rs)\<rparr>)"

text \<open>
  \<open>sendCompletionEmail\<close>: nothing is sent to an unset recipient; otherwise the send is
  inside \<open>try\<close>/\<open>catch\<close>, and both outcomes are logged.
\<close>

datatype exporter_log_line =
    NoValidRecipient
  | CompletionEmailSent string
  | FailedToSendEmail js_error

record exporter_world =
  completion_mails :: "(string \<times> string) list"
  logger :: "exporter_log_line list"

definition sendCompletionEmail ::
  "bool \<Rightarrow> string \<Rightarrow> string \<Rightarrow> exporter_world \<Rightarrow> exporter_world" where
  "sendCompletionEmail mail_up EMAIL_RECIPIENTS spreadsheetUrl w =
     (if EMAIL_RECIPIENTS = [] \<or> trim_start (rev (trim_start (rev EMAIL_RECIPIENTS))) = []
         \<or> EMAIL_RECIPIENTS = ''your-email@example.com''
      then w\<lparr>logger := logger w @ [NoValidRecipient]\<rparr>
      else if mail_up
      then w\<lparr>completion_mails := completion_mails w @ [(EMAIL_RECIPIENTS, spreadsheetUrl)],
             logger := logger w @ [CompletionEmailSent EMAIL_RECIPIENTS]\<rparr>
      else w\<lparr>logger := logger w @ [FailedToSendEmail MailError]\<rparr>)"

section \<open>New search queries\<close>

text \<open>
  A row of yesterday's search term report. The search term, the campaign and the ad
  group are attributes of every row; the metric fields may be absent or malformed.
\<close>

record term_row =
  search_term :: string
  metrics_impressions :: jsval
  metrics_clicks :: jsval
  metrics_cost_micros :: jsval
  campaign_id :: string
  campaign_name :: string
  ad_group_id :: string
  ad_group_name :: string

text \<open>
  An element of \<open>yesterdayData\<close>. The cost is kept as the number that
  \<open>toFixed(2)\<close> renders.
\<close>

record item =
  query :: string
  origQuery :: string
  impressions :: jsnum
  clicks :: jsnum
  cost :: jsnum
  campaignId :: string
  campaignName :: string
  adGroupId :: string
  adGroupName :: string

text \<open>\<open>toLowerCase\<close>, on the letters A to Z; other characters are kept.\<close>

definition lower_char :: "char \<Rightarrow> char" where
  "lower_char c =
     (if 65 \<le> (of_char c :: nat) \<and> (of_char c :: nat) \<le> 90
      then char_of ((of_char c :: nat) + 32) else c)"

definition toLowerCase :: "string \<Rightarrow> string" where
  "toLowerCase s = map lower_char s"

text \<open>The set \<open>priorQueries\<close>, as the list of its elements.\<close>

definition priorQueries_of :: "string list \<Rightarrow> string list" where
  "priorQueries_of priorTerms = map toLowerCase priorTerms"

definition item_of :: "term_row \<Rightarrow> item" where
  "item_of row =
     \<lparr>query = toLowerCase (search_term row),
      origQuery = search_term row,
      impressions = js_or (parseInt (metrics_impressions row)) (Num 0),
      clicks = js_or (parseInt (metrics_clicks row)) (Num 0),
      cost = js_div (js_or (parseInt (metrics_cost_micros row)) (Num 0)) (Num 1000000),
      campaignId = campaign_id row,
      campaignName = campaign_name row,
      adGroupId = ad_group_id row,
      adGroupName = ad_group_name row\<rparr>"

definition yesterdayData_of :: "term_row list \<Rightarrow> item list" where
  "yesterdayData_of rows = map item_of rows"

text \<open>\<open>yesterdayData.filter(item => !priorQueries.has(item.query))\<close>.\<close>

definition newData_of :: "string list \<Rightarrow> term_row list \<Rightarrow> item list" where
  "newData_of priorTerms rows =
     filter (\<lambda>item. query item \<notin> set (priorQueries_of priorTerms)) (yesterdayData_of rows)"

text \<open>The comparator \<open>(a, b) => b.clicks - a.clicks\<close>.\<close>

definition by_clicks_desc :: "item \<Rightarrow> item \<Rightarrow> jsnum" where
  "by_clicks_desc a b = js_sub (clicks b) (clicks a)"

text \<open>\<open>newData.filter(item => item.clicks > 0)\<close>, on the sorted \<open>newData\<close>.\<close>

definition emailData_of :: "item list \<Rightarrow> item list" where
  "emailData_of newData = filter (\<lambda>item. js_gt (clicks item) (Num 0)) newData"

text \<open>
  The two maps filled by \<open>emailData.forEach\<close>: the items and the total clicks per
  campaign name.
\<close>

type_synonym campaign_maps = "(string \<times> item list) list \<times> (string \<times> jsnum) list"

definition group_item :: "item \<Rightarrow> campaign_maps \<Rightarrow> campaign_maps" where
  "group_item it m =
     (let key = campaignName it;
          m1 = (if \<not> map_has (fst m) key
                then (map_set (fst m) key [], map_set (snd m) key (Num 0))
                else m)
      in (map_modify (fst m1) key (\<lambda>items. items @ [it]),
          map_modify (snd m1) key (\<lambda>total. js_add total (clicks it))))"

definition group_by_campaign :: "item list \<Rightarrow> campaign_maps" where
  "group_by_campaign emailData = fold group_item emailData ([], [])"

text \<open>\<open>campaignTotals.get(k)\<close> in arithmetic: an absent key gives NaN.\<close>

definition total_of :: "(string \<times> jsnum) list \<Rightarrow> string \<Rightarrow> jsnum" where
  "total_of campaignTotals k = (case map_of campaignTotals k of None \<Rightarrow> NaN | Some t \<Rightarrow> t)"

text \<open>
  \<open>a.localeCompare(b)\<close> orders strings by the host's collation. The collation is a
  parameter: a function from strings to sort keys of a linear order.
\<close>

definition localeCompare :: "(string \<Rightarrow> 'k::linorder) \<Rightarrow> string \<Rightarrow> string \<Rightarrow> jsnum" where
  "localeCompare collation a b =
     (if collation a < collation b then Num (- 1)
      else if collation b < collation a then Num 1 else Num 0)"

text \<open>The comparator of \<open>sortedCampaigns\<close>.\<close>

definition campaign_cmp ::
  "(string \<Rightarrow> 'k::linorder) \<Rightarrow> (string \<times> jsnum) list \<Rightarrow> string \<Rightarrow> string \<Rightarrow> jsnum" where
  "campaign_cmp collation campaignTotals a b =
     (let diff = js_sub (total_of campaignTotals b) (total_of campaignTotals a)
      in if diff \<noteq> Num 0 then diff else localeCompare collation a b)"

definition sortedCampaigns_of :: "(string \<Rightarrow> 'k::linorder) \<Rightarrow> campaign_maps \<Rightarrow> string list" where
  "sortedCampaigns_of collation m = js_sort (campaign_cmp collation (snd m)) (map_keys (fst m))"

text \<open>\<open>campaignToItems.get(camp)\<close>, sorted by clicks for display.\<close>

definition campaign_items :: "campaign_maps \<Rightarrow> string \<Rightarrow> item list" where
  "campaign_items m camp =
     js_sort by_clicks_desc (case map_of (fst m) camp of None \<Rightarrow> [] | Some items \<Rightarrow> items)"

text \<open>The tables of the mail, in order: a campaign and its rows.\<close>

definition email_groups :: "(string \<Rightarrow> 'k::linorder) \<Rightarrow> item list \<Rightarrow> (string \<times> item list) list" where
  "email_groups collation emailData =
     (let m = group_by_campaign emailData
      in map (\<lambda>camp. (camp, campaign_items m camp)) (sortedCampaigns_of collation m))"

subsection \<open>The sinks\<close>

text \<open>
  The spreadsheet service knows the URLs of its spreadsheets and holds, per URL and sheet
  name, the rows of cells of a sheet; the mail service may be down, and then
  \<open>sendEmail\<close> throws. The mail body is kept as what it shows: the note, or the tables
  (each with the date and the link to the sheet). A log line is kept as a value.
\<close>

datatype log_line =
    NoNewQueries
  | CreatedSpreadsheet string
  | SentNoClicks
  | Sent nat nat

datatype cell = CStr string | CNum jsnum

datatype mail_body =
    NoClicksNote string string
  | CampaignTables string "(string \<times> item list) list" string

record mail =
  to :: string
  subject :: string
  htmlBody :: mail_body

record world =
  spreadsheet_urls :: "string set"
  sheets :: "string \<times> string \<rightharpoonup> cell list list"
  outbox :: "mail list"
  logged :: "log_line list"

record config =
  SHEET_URL :: string
  RECIPIENT_EMAIL :: string
  accountName :: string
  accountId :: string
  yesterdayStr :: string
  created_url :: string
  mail_up :: bool

text \<open>\<open>s.includes(sub)\<close>.\<close>

fun str_includes :: "string \<Rightarrow> string \<Rightarrow> bool" where
  "str_includes [] sub = (sub = [])"
| "str_includes (c # s) sub = (take (length sub) (c # s) = sub \<or> str_includes s sub)"

text \<open>\<open>accountId.slice(-4)\<close>.\<close>

definition last4 :: "string \<Rightarrow> string" where
  "last4 s = drop (length s - 4) s"

definition SHEET_NAME_of :: "config \<Rightarrow> string" where
  "SHEET_NAME_of cfg = accountName cfg @ '' - '' @ last4 (accountId cfg) @ '' - '' @ yesterdayStr cfg"

text \<open>
  The spreadsheet is created when \<open>SHEET_URL\<close> is empty or holds
  \<open>YOUR_SPREADSHEET_ID\<close>, and opened by its URL otherwise; opening an unknown URL
  throws. The result is the URL in use.
\<close>

definition open_spreadsheet :: "config \<Rightarrow> world \<Rightarrow> js_error + (string \<times> world)" where
  "open_spreadsheet cfg w =
     (if SHEET_URL cfg = [] \<or> str_includes (SHEET_URL cfg) ''YOUR_SPREADSHEET_ID''
      then Inr (created_url cfg,
                w\<lparr>spreadsheet_urls := insert (created_url cfg) (spreadsheet_urls w),
                  logged := logged w @ [CreatedSpreadsheet (created_url cfg)]\<rparr>)
      else if SHEET_URL cfg \<in> spreadsheet_urls w then Inr (SHEET_URL cfg, w)
      else Inl SpreadsheetError)"

definition header_row :: "cell list" where
  "header_row = [CStr ''Campaign Name'', CStr ''Campaign ID'', CStr ''Ad Group Name'',
     CStr ''Ad Group ID'', CStr ''Search Term'', CStr ''Impressions'', CStr ''Clicks'', CStr ''Cost'']"

definition item_row :: "item \<Rightarrow> cell list" where
  "item_row it = [CStr (campaignName it), CStr (campaignId it), CStr (adGroupName it),
     CStr (adGroupId it), CStr (origQuery it), CNum (impressions it), CNum (clicks it),
     CNum (cost it)]"

text \<open>
  The sheet is found or inserted, cleared, and filled by \<open>appendRow\<close>: the header,
  then a row per element of \<open>newData\<close>.
\<close>

definition write_sheet :: "string \<Rightarrow> string \<Rightarrow> item list \<Rightarrow> world \<Rightarrow> world" where
  "write_sheet url sheetName newData w =
     w\<lparr>sheets := (sheets w)((url, sheetName) \<mapsto> header_row # map item_row newData)\<rparr>"

text \<open>\<open>MailApp.sendEmail\<close>, called with no \<open>try\<close> around it.\<close>

definition sendEmail :: "config \<Rightarrow> mail \<Rightarrow> world \<Rightarrow> js_error + world" where
  "sendEmail cfg m w = (if mail_up cfg then Inr (w\<lparr>outbox := outbox w @ [m]\<rparr>) else Inl MailError)"

definition emailSubject_of :: "config \<Rightarrow> string" where
  "emailSubject_of cfg = accountName cfg @ '' - New Search Queries - '' @ yesterdayStr cfg"

text \<open>
  \<open>main\<close> of the new search queries script, given the search terms of the prior
  window and the rows of yesterday. The result is the world it leaves and the exception
  that ended it, if one did.
\<close>

definition main_new_queries ::
  "(string \<Rightarrow> 'k::linorder) \<Rightarrow> config \<Rightarrow> string list \<Rightarrow> term_row list \<Rightarrow> world
     \<Rightarrow> world \<times> js_error option" where
  "main_new_queries collation cfg priorTerms rows w =
     (if newData_of priorTerms rows = []
      then (w\<lparr>logged := logged w @ [NoNewQueries]\<rparr>, None)
      else
        (let newData = js_sort by_clicks_desc (newData_of priorTerms rows) in
         case open_spreadsheet cfg w of
           Inl e \<Rightarrow> (w, Some e)
         | Inr opened \<Rightarrow>
             (let url = fst opened;
                  w1 = write_sheet url (SHEET_NAME_of cfg) newData (snd opened);
                  emailData = emailData_of newData
              in if emailData = []
                 then (case sendEmail cfg \<lparr>to = RECIPIENT_EMAIL cfg, subject = emailSubject_of cfg,
                                          htmlBody = NoClicksNote (yesterdayStr cfg) url\<rparr> w1 of
                         Inl e \<Rightarrow> (w1, Some e)
                       | Inr w2 \<Rightarrow>
                           (w2\<lparr>logged := logged w2 @ [SentNoClicks]\<rparr>, None))
                 else (case sendEmail cfg \<lparr>to = RECIPIENT_EMAIL cfg, subject = emailSubject_of cfg,
                                          htmlBody = CampaignTables (yesterdayStr cfg)
                                            (email_groups collation emailData) url\<rparr> w1 of
                         Inl e \<Rightarrow> (w1, Some e)
                       | Inr w2 \<Rightarrow>
                           (w2\<lparr>logged := logged w2 @ [Sent (length newData) (length emailData)]\<rparr>,
                            None)))))"


text \<open>
  The condition \<open>spend > 0\<close> of the daily loop, for a row whose Cost is present, and its
  negation: the parsed Cost is not greater than 0 (NaN included).
\<close>

definition positive_cost :: "target_row \<Rightarrow> bool" where
  "positive_cost row =
     (case replace_commas (Cost row) of Inl e \<Rightarrow> False
      | Inr costStr \<Rightarrow> js_gt (parseFloat_str costStr) (Num 0))"


text \<open>The country name that the daily loop gives a row.\<close>

definition row_country :: "(string \<times> string) list \<Rightarrow> target_row \<Rightarrow> string" where
  "row_country locationRows row = country_name_of (locationMap_of locationRows) (CriteriaId row)"

text \<open>The position at which a key first appears in a sequence of keys.\<close>

definition first_seen :: "'a list \<Rightarrow> 'a \<Rightarrow> nat" where
  "first_seen ks k = length (takeWhile (\<lambda>x. x \<noteq> k) ks)"

text \<open>
  The keys of a map are in the order in which they first appear in \<open>ks\<close>, and they are
  the keys that appear there.
\<close>

definition in_order_of :: "'a list \<Rightarrow> 'a list \<Rightarrow> bool" where
  "in_order_of ks keys =
     (sorted_wrt (\<lambda>a b. first_seen ks a < first_seen ks b) keys \<and> set keys = set ks)"

text \<open>
  The invariant of the daily loop after the rows \<open>done\<close>: the countries are in order of
  first appearance among the rows with a positive cost, each object carries its key as
  name, and each spend is a positive finite number.
\<close>

definition daily_inv :: "(string \<rightharpoonup> string) \<Rightarrow> target_row list \<Rightarrow> country_state \<Rightarrow> bool" where
  "daily_inv lm done st =
     (in_order_of (map (\<lambda>row. country_name_of lm (CriteriaId row)) (filter positive_cost done))
        (map_keys (fst st)) \<and>
      (\<forall>kv \<in> set (fst st). name (snd kv) = fst kv \<and> (\<exists>r. 0 < r \<and> spend (snd kv) = Num r)))"

text \<open>The country name that the exporter's loop gives a row.\<close>

definition geo_country :: "(string \<times> string) list \<Rightarrow> geo_row \<Rightarrow> string" where
  "geo_country constRows row = country_label (getCountryNames constRows) (country_criterion_id row)"

text \<open>Every counter of a country's object is a finite number.\<close>

definition finite_data :: "country_data \<Rightarrow> bool" where
  "finite_data d =
     (is_finite (country_data.clicks d) \<and> is_finite (country_data.impressions d) \<and>
      is_finite (country_data.cost d) \<and> is_finite (convValue d) \<and>
      is_finite (country_data.conversions d) \<and> is_finite (allConversions d))"

text \<open>
  The invariant of the exporter's loop after the rows \<open>done\<close>: the countries are in
  order of first appearance and every counter is finite.
\<close>

definition exporter_inv ::
  "(string \<rightharpoonup> string) \<Rightarrow> geo_row list \<Rightarrow> (string \<times> country_data) list \<Rightarrow> bool" where
  "exporter_inv countryNames done m =
     (in_order_of (map (\<lambda>row. country_label countryNames (country_criterion_id row)) done)
        (map_keys m) \<and>
      (\<forall>kv \<in> set m. finite_data (snd kv)))"

text \<open>The \<open>emailData\<close> that \<open>main\<close> computes, and the clicks of a table of the mail.\<close>

definition emailData_from :: "string list \<Rightarrow> term_row list \<Rightarrow> item list" where
  "emailData_from priorTerms rows =
     emailData_of (js_sort by_clicks_desc (newData_of priorTerms rows))"

definition group_clicks :: "string \<times> item list \<Rightarrow> jsnum" where
  "group_clicks g = js_sum (map item.clicks (snd g))"

text \<open>
  The invariant of the grouping loop after the items \<open>done\<close>: the campaigns are in order
  of first appearance, both maps have the same keys, and a campaign holds its items, in
  order, and the sum of their clicks.
\<close>

definition grouped :: "item list \<Rightarrow> campaign_maps \<Rightarrow> bool" where
  "grouped done m =
     (in_order_of (map campaignName done) (map_keys (fst m)) \<and>
      map_keys (snd m) = map_keys (fst m) \<and>
      (\<forall>kv \<in> set (fst m). snd kv = filter (\<lambda>i. campaignName i = fst kv) done) \<and>
      (\<forall>kt \<in> set (snd m).
         snd kt = js_sum (map item.clicks (filter (\<lambda>i. campaignName i = fst kt) done))))"

text \<open>
  What a row of the exporter's report adds to each counter of its country, and the row
  in which every malformed or absent numeric field is replaced by the string \<open>0\<close>.
\<close>

definition geo_clicks :: "geo_row \<Rightarrow> jsnum" where
  "geo_clicks row = js_or (parseInt (geo_row.metrics_clicks row)) (Num 0)"

definition geo_impressions :: "geo_row \<Rightarrow> jsnum" where
  "geo_impressions row = js_or (parseInt (geo_row.metrics_impressions row)) (Num 0)"

definition geo_cost :: "geo_row \<Rightarrow> jsnum" where
  "geo_cost row =
     js_div (js_or (parseFloat (geo_row.metrics_cost_micros row)) (Num 0)) (Num 1000000)"

definition geo_convValue :: "geo_row \<Rightarrow> jsnum" where
  "geo_convValue row = js_or (parseFloat (metrics_conversions_value row)) (Num 0)"

definition geo_conversions :: "geo_row \<Rightarrow> jsnum" where
  "geo_conversions row = js_or (parseFloat (metrics_conversions row)) (Num 0)"

definition geo_allConversions :: "geo_row \<Rightarrow> jsnum" where
  "geo_allConversions row = js_or (parseFloat (metrics_all_conversions row)) (Num 0)"

definition int_or_zero :: "jsval \<Rightarrow> jsval" where
  "int_or_zero v = (if parseInt v = NaN then Str ''0'' else v)"

definition float_or_zero :: "jsval \<Rightarrow> jsval" where
  "float_or_zero v = (if parseFloat v = NaN then Str ''0'' else v)"

definition zero_malformed :: "geo_row \<Rightarrow> geo_row" where
  "zero_malformed row =
     \<lparr>country_criterion_id = country_criterion_id row,
      metrics_clicks = int_or_zero (geo_row.metrics_clicks row),
      metrics_impressions = int_or_zero (geo_row.metrics_impressions row),
      metrics_cost_micros = float_or_zero (geo_row.metrics_cost_micros row),
      metrics_conversions_value = float_or_zero (metrics_conversions_value row),
      metrics_conversions = float_or_zero (metrics_conversions row),
      metrics_all_conversions = float_or_zero (metrics_all_conversions row)\<rparr>"

text \<open>The rows of the exporter's report that belong to a country.\<close>

definition geo_rows_of :: "(string \<times> string) list \<Rightarrow> geo_row list \<Rightarrow> string \<Rightarrow> geo_row list" where
  "geo_rows_of constRows rows country = filter (\<lambda>row. geo_country constRows row = country) rows"

text \<open>
  A row of the exporter's sheet has guarded ratios: each ratio is a finite number, and
  it is 0 when its denominator is 0.
\<close>

definition ratios_guarded :: "sheet_row \<Rightarrow> bool" where
  "ratios_guarded r =
     (is_finite (col_ctr r) \<and> is_finite (col_avgCpc r) \<and> is_finite (col_roas r) \<and>
      is_finite (col_convRate r) \<and> is_finite (col_costPerConv r) \<and>
      (col_impressions r = Num 0 \<longrightarrow> col_ctr r = Num 0) \<and>
      (col_clicks r = Num 0 \<longrightarrow> col_avgCpc r = Num 0) \<and>
      (col_cost r = Num 0 \<longrightarrow> col_roas r = Num 0) \<and>
      (col_clicks r = Num 0 \<longrightarrow> col_convRate r = Num 0) \<and>
      (col_conversions r = Num 0 \<longrightarrow> col_costPerConv r = Num 0))"

text \<open>
  The rows of the daily report with a positive cost that belong to a country, what such
  a row adds to the spend, and a row that has all its fields.
\<close>

definition row_spend :: "target_row \<Rightarrow> jsnum" where
  "row_spend row = parseFloat_str (filter (\<lambda>c. c \<noteq> CHR '','') (to_string (Cost row)))"

definition target_rows_of ::
  "(string \<times> string) list \<Rightarrow> target_row list \<Rightarrow> string \<Rightarrow> target_row list" where
  "target_rows_of locationRows rows country =
     filter (\<lambda>row. row_country locationRows row = country) (filter positive_cost rows)"

definition all_fields_present :: "target_row \<Rightarrow> bool" where
  "all_fields_present row =
     (Cost row \<noteq> Undefined \<and> Impressions row \<noteq> Undefined \<and> Clicks row \<noteq> Undefined \<and>
      Conversions row \<noteq> Undefined)"

text \<open>A row of the daily report on which only the cost can be rejected.\<close>

definition example_tie_rows :: "target_row list" where
  "example_tie_rows =
     [\<lparr>CriteriaId = ''2250'', Clicks = Str ''0'', Impressions = Str ''12'', Cost = Str ''0.00'',
        Conversions = Str ''0''\<rparr>,
      \<lparr>CriteriaId = ''2840'', Clicks = Str ''2'', Impressions = Str ''100'', Cost = Str ''10.00'',
        Conversions = Str ''0''\<rparr>,
      \<lparr>CriteriaId = ''2250'', Clicks = Str ''4'', Impressions = Str ''200'', Cost = Str ''10.00'',
        Conversions = Str ''0''\<rparr>]"

text \<open>
  The object that a sequence of rows of one country builds in the exporter, and the
  invariant of the loop that says so for every country.
\<close>

definition geo_object :: "geo_row list \<Rightarrow> country_data" where
  "geo_object rows = fold add_geo_row rows new_country_data"

definition exporter_objects ::
  "(string \<rightharpoonup> string) \<Rightarrow> geo_row list \<Rightarrow> (string \<times> country_data) list \<Rightarrow> bool" where
  "exporter_objects countryNames done m =
     (\<forall>kv \<in> set m.
        snd kv = geo_object
          (filter (\<lambda>row. country_label countryNames (country_criterion_id row) = fst kv) done))"

text \<open>
  The same for the daily script: what a row with all its fields adds to the counters,
  the object and the totals that a sequence of such rows builds, and the invariant.
\<close>

definition row_impressions :: "target_row \<Rightarrow> jsnum" where
  "row_impressions row = parseInt10 (filter (\<lambda>c. c \<noteq> CHR '','') (to_string (Impressions row)))"

definition row_clicks :: "target_row \<Rightarrow> jsnum" where
  "row_clicks row = parseInt10 (filter (\<lambda>c. c \<noteq> CHR '','') (to_string (Clicks row)))"

definition row_conversions :: "target_row \<Rightarrow> jsnum" where
  "row_conversions row =
     parseFloat_str (filter (\<lambda>c. c \<noteq> CHR '','') (to_string (Conversions row)))"

definition add_row :: "target_row \<Rightarrow> 'a totals_scheme \<Rightarrow> 'a totals_scheme" where
  "add_row row t =
     add_metrics (row_spend row) (row_impressions row) (row_clicks row) (row_conversions row) t"

definition daily_objects ::
  "(string \<rightharpoonup> string) \<Rightarrow> target_row list \<Rightarrow> country_state \<Rightarrow> bool" where
  "daily_objects lm done st =
     ((\<forall>kv \<in> set (fst st).
         snd kv = fold add_row
           (filter (\<lambda>row. country_name_of lm (CriteriaId row) = fst kv) (filter positive_cost done))
           (new_country (fst kv))) \<and>
      snd st = fold add_row (filter positive_cost done) zero_totals)"

section \<open>Example reports\<close>

text \<open>
  Three rows for two countries, US with costs 50 and 30 and FR with cost 40, as rows of
  the daily report and of the exporter's report (costs in micros), and the table that
  names the countries.
\<close>

definition example_locations :: "(string \<times> string) list" where
  "example_locations = [(''2840'', ''US''), (''2250'', ''FR'')]"

definition example_target_rows :: "target_row list" where
  "example_target_rows =
     [\<lparr>CriteriaId = ''2840'', Clicks = Str ''5'', Impressions = Str ''1,000'', Cost = Str ''50.00'',
        Conversions = Str ''1.5''\<rparr>,
      \<lparr>CriteriaId = ''2840'', Clicks = Str ''3'', Impressions = Str ''100'', Cost = Str ''30'',
        Conversions = Str ''0''\<rparr>,
      \<lparr>CriteriaId = ''2250'', Clicks = Str ''4'', Impressions = Str ''200'', Cost = Str ''40'',
        Conversions = Str ''0''\<rparr>]"

definition example_geo_rows :: "geo_row list" where
  "example_geo_rows =
     [\<lparr>country_criterion_id = ''2840'', metrics_clicks = Str ''5'', metrics_impressions = Str ''1000'',
        metrics_cost_micros = Str ''50000000'', metrics_conversions_value = Str ''12.5'',
        metrics_conversions = Str ''1.5'', metrics_all_conversions = Str ''2''\<rparr>,
      \<lparr>country_criterion_id = ''2840'', metrics_clicks = Str ''3'', metrics_impressions = Str ''100'',
        metrics_cost_micros = Str ''30000000'', metrics_conversions_value = Str ''0'',
        metrics_conversions = Str ''0'', metrics_all_conversions = Str ''0''\<rparr>,
      \<lparr>country_criterion_id = ''2250'', metrics_clicks = Str ''4'', metrics_impressions = Str ''200'',
        metrics_cost_micros = Str ''40000000'', metrics_conversions_value = Str ''0'',
        metrics_conversions = Str ''0'', metrics_all_conversions = Str ''0''\<rparr>]"

text \<open>
  Rows of the daily report of which only the first has a positive cost: the second costs
  nothing and the third has no readable cost.
\<close>

definition example_cost_rows :: "target_row list" where
  "example_cost_rows =
     [\<lparr>CriteriaId = ''2840'', Clicks = Str ''5'', Impressions = Str ''1,000'', Cost = Str ''50.00'',
        Conversions = Str ''1.5''\<rparr>,
      \<lparr>CriteriaId = ''2276'', Clicks = Str ''0'', Impressions = Str ''12'', Cost = Str ''0.00'',
        Conversions = Str ''0''\<rparr>,
      \<lparr>CriteriaId = ''2250'', Clicks = Str ''1'', Impressions = Str ''7'', Cost = Str ''--'',
        Conversions = Str ''0''\<rparr>]"

text \<open>
  New queries with clicks 5 and 3 in campaign A and 10 in campaign B, and one more in B
  that nobody clicked; a configuration with an existing spreadsheet; and a collation that
  compares strings by their character codes.
\<close>

definition example_term_rows :: "term_row list" where
  "example_term_rows =
     [\<lparr>search_term = ''red shoes'', metrics_impressions = Str ''50'', metrics_clicks = Str ''5'',
        metrics_cost_micros = Str ''2500000'', campaign_id = ''1'', campaign_name = ''A'',
        ad_group_id = ''7'', ad_group_name = ''G''\<rparr>,
      \<lparr>search_term = ''blue hat'', metrics_impressions = Str ''40'', metrics_clicks = Str ''3'',
        metrics_cost_micros = Str ''1000000'', campaign_id = ''1'', campaign_name = ''A'',
        ad_group_id = ''7'', ad_group_name = ''G''\<rparr>,
      \<lparr>search_term = ''green coat'', metrics_impressions = Str ''90'', metrics_clicks = Str ''10'',
        metrics_cost_micros = Str ''7000000'', campaign_id = ''2'', campaign_name = ''B'',
        ad_group_id = ''8'', ad_group_name = ''H''\<rparr>,
      \<lparr>search_term = ''grey socks'', metrics_impressions = Str ''4'', metrics_clicks = Str ''0'',
        metrics_cost_micros = Str ''0'', campaign_id = ''2'', campaign_name = ''B'',
        ad_group_id = ''8'', ad_group_name = ''H''\<rparr>]"

definition example_config :: config where
  "example_config =
     \<lparr>SHEET_URL = ''https://sheets.example/1'', RECIPIENT_EMAIL = ''ops@example.com'',
      accountName = ''Acme'', accountId = ''123-456-7890'', yesterdayStr = ''2024-05-01'',
      created_url = ''https://sheets.example/new'', mail_up = True\<rparr>"

definition example_world :: world where
  "example_world =
     \<lparr>spreadsheet_urls = {''https://sheets.example/1''}, sheets = Map.empty, outbox = [],
      logged = []\<rparr>"

definition code_order :: "string \<Rightarrow> nat list" where
  "code_order s = map of_char s"

section \<open>Properties\<close>

subsection \<open>Numbers, sorting and maps\<close>


lemma js_add_assoc: "js_add (js_add a b) c = js_add a (js_add b c)"
  by (cases a; cases b; cases c) simp_all

lemma js_add_left_commute: "js_add a (js_add b c) = js_add b (js_add a c)"
  by (cases a; cases b; cases c) simp_all

lemma js_add_zero [simp]: "js_add (Num 0) a = a" "js_add a (Num 0) = a"
  by (cases a; simp)+

lemma js_sum_Nil [simp]: "js_sum [] = Num 0"
  by (simp add: js_sum_def)

lemma js_sum_Cons [simp]: "js_sum (x # xs) = js_add x (js_sum xs)"
  by (simp add: js_sum_def)

lemma js_sum_append: "js_sum (xs @ ys) = js_add (js_sum xs) (js_sum ys)"
  by (induction xs) (simp_all add: js_add_assoc)

lemma js_sum_insert: "js_sum (map f (js_insert cmp x ys)) = js_add (f x) (js_sum (map f ys))"
  by (induction ys) (simp_all add: js_add_left_commute)

lemma js_sum_sort: "js_sum (map f (js_sort cmp xs)) = js_sum (map f xs)"
  by (induction xs) (simp_all add: js_sort_def js_sum_insert)

lemma set_js_insert [simp]: "set (js_insert cmp x ys) = insert x (set ys)"
  by (induction ys) auto

lemma set_js_sort [simp]: "set (js_sort cmp xs) = set xs"
  by (induction xs) (simp_all add: js_sort_def)

lemma mset_js_insert [simp]: "mset (js_insert cmp x ys) = add_mset x (mset ys)"
  by (induction ys) auto

lemma mset_js_sort [simp]: "mset (js_sort cmp xs) = mset xs"
  by (induction xs) (simp_all add: js_sort_def)

lemma length_js_sort [simp]: "length (js_sort cmp xs) = length xs"
  using mset_js_sort [of cmp xs] by (metis size_mset)

lemma js_sort_Cons: "js_sort cmp (x # xs) = js_insert cmp x (js_sort cmp xs)"
  by (simp add: js_sort_def)

text \<open>
  Sorting with a comparator that is a strict weak order on the elements: \<open>a\<close> is strictly
  before \<open>b\<close> when \<open>cmp(b, a) > 0\<close>. In the result an element is never after one it is
  strictly before, and elements that the comparator does not separate keep the order
  \<open>Q\<close> they had.
\<close>

lemma js_insert_sorted:
  fixes cmp :: "'a \<Rightarrow> 'a \<Rightarrow> jsnum"
  defines "lt \<equiv> \<lambda>a b. js_gt (cmp b a) (Num 0)"
  assumes asym: "\<And>a b. a \<in> A \<Longrightarrow> b \<in> A \<Longrightarrow> lt a b \<Longrightarrow> \<not> lt b a"
    and negtrans:
      "\<And>a b c. a \<in> A \<Longrightarrow> b \<in> A \<Longrightarrow> c \<in> A \<Longrightarrow> \<not> lt a b \<Longrightarrow> \<not> lt b c \<Longrightarrow> \<not> lt a c"
  shows "insert x (set ys) \<subseteq> A \<Longrightarrow> sorted_wrt (\<lambda>a b. lt a b \<or> (\<not> lt b a \<and> Q a b)) ys
    \<Longrightarrow> \<forall>z\<in>set ys. Q x z
    \<Longrightarrow> sorted_wrt (\<lambda>a b. lt a b \<or> (\<not> lt b a \<and> Q a b)) (js_insert cmp x ys)"
proof (induction ys)
  case Nil
  then show ?case by simp
next
  case (Cons y ys)
  have xA: "x \<in> A" and yA: "y \<in> A" and ysA: "set ys \<subseteq> A"
    using Cons.prems(1) by auto
  show ?case
  proof (cases "js_gt (cmp x y) (Num 0)")
    case True
    then have "lt y x" by (simp add: lt_def)
    moreover have "sorted_wrt (\<lambda>a b. lt a b \<or> (\<not> lt b a \<and> Q a b)) (js_insert cmp x ys)"
      using Cons by auto
    ultimately show ?thesis
      using True Cons.prems(2) by auto
  next
    case False
    then have nyx: "\<not> lt y x" by (simp add: lt_def)
    have "\<not> lt z x" if z: "z \<in> set ys" for z
    proof
      assume zx: "lt z x"
      have zA: "z \<in> A" using z ysA by auto
      from Cons.prems(2) z have "lt y z \<or> (\<not> lt z y \<and> Q y z)" by auto
      then show False
      proof
        assume yz: "lt y z"
        have "\<not> lt x z" using asym [OF zA xA zx] .
        with nyx have "\<not> lt y z" using negtrans [OF yA xA zA] by blast
        with yz show False by simp
      next
        assume "\<not> lt z y \<and> Q y z"
        with nyx have "\<not> lt z x" using negtrans [OF zA yA xA] by blast
        with zx show False by simp
      qed
    qed
    with nyx have "\<forall>z\<in>set (y # ys). \<not> lt z x" by auto
    with Cons.prems(3) have "\<forall>z\<in>set (y # ys). lt x z \<or> (\<not> lt z x \<and> Q x z)" by auto
    with False Cons.prems(2) show ?thesis by simp
  qed
qed

lemma js_sort_sorted:
  fixes cmp :: "'a \<Rightarrow> 'a \<Rightarrow> jsnum"
  defines "lt \<equiv> \<lambda>a b. js_gt (cmp b a) (Num 0)"
  assumes asym: "\<And>a b. a \<in> A \<Longrightarrow> b \<in> A \<Longrightarrow> lt a b \<Longrightarrow> \<not> lt b a"
    and negtrans:
      "\<And>a b c. a \<in> A \<Longrightarrow> b \<in> A \<Longrightarrow> c \<in> A \<Longrightarrow> \<not> lt a b \<Longrightarrow> \<not> lt b c \<Longrightarrow> \<not> lt a c"
  shows "set xs \<subseteq> A \<Longrightarrow> sorted_wrt Q xs
    \<Longrightarrow> sorted_wrt (\<lambda>a b. lt a b \<or> (\<not> lt b a \<and> Q a b)) (js_sort cmp xs)"
proof (induction xs)
  case Nil
  then show ?case by (simp add: js_sort_def)
next
  case (Cons x xs)
  have 1: "sorted_wrt (\<lambda>a b. lt a b \<or> (\<not> lt b a \<and> Q a b)) (js_sort cmp xs)"
    using Cons by simp
  have 2: "insert x (set (js_sort cmp xs)) \<subseteq> A" using Cons.prems(1) by simp
  have 3: "\<forall>z\<in>set (js_sort cmp xs). Q x z" using Cons.prems(2) by simp
  have "sorted_wrt (\<lambda>a b. js_gt (cmp b a) (Num 0) \<or> (\<not> js_gt (cmp a b) (Num 0) \<and> Q a b))
      (js_insert cmp x (js_sort cmp xs))"
  proof (rule js_insert_sorted [where A = A and cmp = cmp and Q = Q])
    show "insert x (set (js_sort cmp xs)) \<subseteq> A" by (rule 2)
    show "\<forall>z\<in>set (js_sort cmp xs). Q x z" by (rule 3)
    show "sorted_wrt (\<lambda>a b. js_gt (cmp b a) (Num 0) \<or> (\<not> js_gt (cmp a b) (Num 0) \<and> Q a b))
      (js_sort cmp xs)"
      using 1 by (simp add: lt_def)
  next
    fix a b assume "a \<in> A" "b \<in> A" "js_gt (cmp b a) (Num 0)"
    then show "\<not> js_gt (cmp a b) (Num 0)" using asym [of a b] by (simp add: lt_def)
  next
    fix a b c
    assume "a \<in> A" "b \<in> A" "c \<in> A" "\<not> js_gt (cmp b a) (Num 0)" "\<not> js_gt (cmp c b) (Num 0)"
    then show "\<not> js_gt (cmp c a) (Num 0)" using negtrans [of a b c] by (simp add: lt_def)
  qed
  then show ?case
    by (simp add: js_sort_Cons lt_def)
qed

text \<open>Definitions to unfold when a script is run on concrete rows.\<close>

lemmas parse_defs = parseFloat_def parseFloat_str_def parseInt10_def parseInt_def trim_start_def
  is_ws_def is_digit_def digits_val_def digit_val_def signed_def scale10_def to_string_def
  replace_commas_def is_hex_digit_def hex_digit_val_def hex_val_def js_or_def js_truthy_def

lemmas daily_defs = getCountryData_def locationMap_of_def process_row_def accumulate_def
  country_name_of_def map_has_def new_country_def add_metrics_def zero_totals_def map_values_def
  with_ratios_def js_sort_def by_spend_desc_def js_sub_def total_row_ctr_def total_row_cpc_def

lemmas queries_defs = main_new_queries_def newData_of_def yesterdayData_of_def priorQueries_of_def
  item_of_def toLowerCase_def lower_char_def char_of_def bit_Suc_0_iff open_spreadsheet_def
  write_sheet_def sendEmail_def emailData_of_def js_sort_def by_clicks_desc_def js_sub_def
  SHEET_NAME_of_def last4_def emailSubject_of_def

lemma map_has_Nil [simp]: "\<not> map_has [] k"
  by (simp add: map_has_def)

lemma map_has_Cons [simp]: "map_has ((k', v) # m) k = (k' = k \<or> map_has m k)"
  by (auto simp: map_has_def)

lemma map_has_iff: "map_has m k = (k \<in> set (map_keys m))"
  by (induction m) (auto simp: map_keys_def)

lemma map_set_absent: "\<not> map_has m k \<Longrightarrow> map_set m k v = m @ [(k, v)]"
  by (induction m) auto



subsection \<open>Daily email: the countries add up to the totals\<close>





lemma with_ratios_sel [simp]:
  "totals.spend (with_ratios c) = totals.spend c"
  "totals.impressions (with_ratios c) = totals.impressions c"
  "totals.clicks (with_ratios c) = totals.clicks c"
  "totals.conversions (with_ratios c) = totals.conversions c"
  "country_stats.name (with_ratios c) = country_stats.name c"
  by (simp_all add: with_ratios_def)




subsection \<open>Daily email: the ratio of the TOTAL row\<close>

text \<open>
  Claim C2. The claim wants every ratio, the ones of the total row included, to be 0 when
  its denominator is 0, and never NaN. In the daily email the click-through rate of the
  TOTAL row is \<open>totals.clicks / totals.impressions\<close> with no guard: on a report with
  no rows the total of impressions is 0 and the ratio is NaN, not 0. (The cost-per-click
  cell next to it, and both ratios of every country, are guarded.)
\<close>

theorem C2_total_row_ctr_is_NaN:
  "totals.impressions (report_totals (getCountryData locationRows [])) = Num 0 \<and>
   total_row_ctr (report_totals (getCountryData locationRows [])) = NaN \<and>
   total_row_cpc (report_totals (getCountryData locationRows [])) = Num 0"
  by (simp add: getCountryData_def zero_totals_def total_row_ctr_def total_row_cpc_def)

subsection \<open>Daily email: malformed and absent fields\<close>

text \<open>
  Claim C6. The claim wants a malformed or absent numeric field to count as 0. In the
  daily email script the fields are parsed with no fallback: a malformed Impressions
  field makes the country's and the total impressions NaN, and an absent one raises
  inside \<open>try\<close>, so that the whole report comes back empty though the row has a cost of
  10.
\<close>

theorem C6_daily_field_not_treated_as_zero:
  "map totals.impressions (countries (getCountryData []
      [\<lparr>CriteriaId = ''2840'', Clicks = Str ''5'', Impressions = Str ''--'', Cost = Str ''10.00'',
        Conversions = Str ''1''\<rparr>])) = [NaN] \<and>
   totals.impressions (report_totals (getCountryData []
      [\<lparr>CriteriaId = ''2840'', Clicks = Str ''5'', Impressions = Str ''--'', Cost = Str ''10.00'',
        Conversions = Str ''1''\<rparr>])) = NaN \<and>
   getCountryData []
      [\<lparr>CriteriaId = ''2840'', Clicks = Str ''5'', Impressions = Undefined, Cost = Str ''10.00'',
        Conversions = Str ''1''\<rparr>] = \<lparr>countries = [], report_totals = zero_totals\<rparr>"
  by (simp add: daily_defs parse_defs)

subsection \<open>New search queries: which rows are new\<close>



subsection \<open>New search queries: nothing new, nothing written\<close>

text \<open>
  Claim C7. When yesterday has no rows, or none of them is new, \<open>main\<close> ends normally
  after one log line: the sheets, the known spreadsheets and the mails are as before.
\<close>

theorem C7_no_new_queries_no_writes:
  assumes "rows = [] \<or> newData_of priorTerms rows = []"
  shows "main_new_queries collation cfg priorTerms rows w
           = (w\<lparr>logged := logged w @ [NoNewQueries]\<rparr>, None) \<and>
         sheets (fst (main_new_queries collation cfg priorTerms rows w)) = sheets w \<and>
         spreadsheet_urls (fst (main_new_queries collation cfg priorTerms rows w))
           = spreadsheet_urls w \<and>
         outbox (fst (main_new_queries collation cfg priorTerms rows w)) = outbox w"
proof -
  from assms have "newData_of priorTerms rows = []"
    by (auto simp: newData_of_def yesterdayData_of_def)
  then have "main_new_queries collation cfg priorTerms rows w
      = (w\<lparr>logged := logged w @ [NoNewQueries]\<rparr>, None)"
    by (simp add: main_new_queries_def)
  then show ?thesis by simp
qed

theorem C7_no_new_queries_no_writes_witness:
  "main_new_queries (\<lambda>s. map (of_char :: char \<Rightarrow> nat) s)
     \<lparr>SHEET_URL = ''https://sheets.example/1'', RECIPIENT_EMAIL = ''ops@example.com'',
      accountName = ''Acme'', accountId = ''123-456-7890'', yesterdayStr = ''2024-05-01'',
      created_url = ''https://sheets.example/new'', mail_up = True\<rparr>
     [''Red Shoes'']
     [\<lparr>search_term = ''RED shoes'', metrics_impressions = Str ''10'', metrics_clicks = Str ''1'',
        metrics_cost_micros = Str ''2500000'', campaign_id = ''1'', campaign_name = ''A'',
        ad_group_id = ''7'', ad_group_name = ''G''\<rparr>]
     \<lparr>spreadsheet_urls = {''https://sheets.example/1''}, sheets = Map.empty, outbox = [],
      logged = []\<rparr>
   = (\<lparr>spreadsheet_urls = {''https://sheets.example/1''}, sheets = Map.empty, outbox = [],
       logged = [NoNewQueries]\<rparr>, None)"
proof -
  have "newData_of [''Red Shoes'']
     [\<lparr>search_term = ''RED shoes'', metrics_impressions = Str ''10'', metrics_clicks = Str ''1'',
        metrics_cost_micros = Str ''2500000'', campaign_id = ''1'', campaign_name = ''A'',
        ad_group_id = ''7'', ad_group_name = ''G''\<rparr>] = []"
    by (simp add: newData_of_def yesterdayData_of_def priorQueries_of_def item_of_def
        toLowerCase_def lower_char_def char_of_def bit_Suc_0_iff)
  then show ?thesis
    using C7_no_new_queries_no_writes [of
     "[\<lparr>search_term = ''RED shoes'', metrics_impressions = Str ''10'', metrics_clicks = Str ''1'',
        metrics_cost_micros = Str ''2500000'', campaign_id = ''1'', campaign_name = ''A'',
        ad_group_id = ''7'', ad_group_name = ''G''\<rparr>]" "[''Red Shoes'']"
     "\<lambda>s. map (of_char :: char \<Rightarrow> nat) s"
     "\<lparr>SHEET_URL = ''https://sheets.example/1'', RECIPIENT_EMAIL = ''ops@example.com'',
      accountName = ''Acme'', accountId = ''123-456-7890'', yesterdayStr = ''2024-05-01'',
      created_url = ''https://sheets.example/new'', mail_up = True\<rparr>"
     "\<lparr>spreadsheet_urls = {''https://sheets.example/1''}, sheets = Map.empty, outbox = [],
      logged = []\<rparr>"]
    by simp
qed

subsection \<open>A failure of the mail service\<close>

text \<open>
  Claim C8. The claim wants every script to catch a failure of \<open>MailApp.sendEmail\<close>.
  \<open>sendEmailReport\<close> and \<open>sendCompletionEmail\<close> do (they return normally and log the
  failure), but the new search queries script calls \<open>sendEmail\<close> with no \<open>try\<close>:
  whenever there is a new query, the spreadsheet opens and the mail service is down,
  \<open>main\<close> ends with the mail error. The sheet has been written by then.
\<close>

theorem C8_new_queries_mail_failure_propagates:
  assumes "newData_of priorTerms rows \<noteq> []"
    and "open_spreadsheet cfg w = Inr opened"
    and "\<not> mail_up cfg"
  shows "snd (main_new_queries collation cfg priorTerms rows w) = Some MailError"
  using assms by (simp add: main_new_queries_def Let_def sendEmail_def)

theorem C8_new_queries_mail_failure_propagates_witness:
  "snd (main_new_queries (\<lambda>s. map (of_char :: char \<Rightarrow> nat) s)
     \<lparr>SHEET_URL = ''https://sheets.example/1'', RECIPIENT_EMAIL = ''ops@example.com'',
      accountName = ''Acme'', accountId = ''123-456-7890'', yesterdayStr = ''2024-05-01'',
      created_url = ''https://sheets.example/new'', mail_up = False\<rparr>
     []
     [\<lparr>search_term = ''blue hat'', metrics_impressions = Str ''10'', metrics_clicks = Str ''1'',
        metrics_cost_micros = Str ''2500000'', campaign_id = ''1'', campaign_name = ''A'',
        ad_group_id = ''7'', ad_group_name = ''G''\<rparr>]
     \<lparr>spreadsheet_urls = {''https://sheets.example/1''}, sheets = Map.empty, outbox = [],
      logged = []\<rparr>) = Some MailError"
proof -
  have 1: "newData_of []
     [\<lparr>search_term = ''blue hat'', metrics_impressions = Str ''10'', metrics_clicks = Str ''1'',
        metrics_cost_micros = Str ''2500000'', campaign_id = ''1'', campaign_name = ''A'',
        ad_group_id = ''7'', ad_group_name = ''G''\<rparr>] \<noteq> []"
    by (simp add: newData_of_def yesterdayData_of_def priorQueries_of_def)
  have 2: "open_spreadsheet
     \<lparr>SHEET_URL = ''https://sheets.example/1'', RECIPIENT_EMAIL = ''ops@example.com'',
      accountName = ''Acme'', accountId = ''123-456-7890'', yesterdayStr = ''2024-05-01'',
      created_url = ''https://sheets.example/new'', mail_up = False\<rparr>
     \<lparr>spreadsheet_urls = {''https://sheets.example/1''}, sheets = Map.empty, outbox = [],
      logged = []\<rparr>
     = Inr (''https://sheets.example/1'',
        \<lparr>spreadsheet_urls = {''https://sheets.example/1''}, sheets = Map.empty, outbox = [],
         logged = []\<rparr>)"
    by (simp add: open_spreadsheet_def)
  show ?thesis
    by (rule C8_new_queries_mail_failure_propagates [OF 1 2]) simp
qed

text \<open>The two other senders end normally whether the mail service is up or not.\<close>

lemma sendEmailReport_mail_down:
  "sendEmailReport False reportData date recipient subj w
     = w\<lparr>console := console w @ [ErrorSendingEmail MailError]\<rparr>"
  by (simp add: sendEmailReport_def)

lemma sendCompletionEmail_mail_down:
  "completion_mails (sendCompletionEmail False recipients url w) = completion_mails w"
  by (simp add: sendCompletionEmail_def)

subsection \<open>Keys in order of first appearance\<close>

lemma parseFloat_str_cases: "parseFloat_str s = NaN \<or> (\<exists>r. parseFloat_str s = Num r)"
  by (simp add: parseFloat_str_def Let_def split: prod.splits)

lemma parseInt10_cases: "parseInt10 s = NaN \<or> (\<exists>r. parseInt10 s = Num r)"
  by (simp add: parseInt10_def Let_def split: prod.splits)

lemma parseInt_cases: "parseInt v = NaN \<or> (\<exists>r. parseInt v = Num r)"
  by (simp add: parseInt_def Let_def split: prod.splits)

lemma js_gt_zero_Num: "js_gt s (Num 0) \<Longrightarrow> s = NaN \<or> (\<exists>r. s = Num r) \<Longrightarrow> \<exists>r. 0 < r \<and> s = Num r"
  by (cases s) auto

lemma map_keys_modify [simp]: "map_keys (map_modify m k f) = map_keys m"
  by (induction m) (auto simp: map_keys_def)

lemma map_keys_set_absent: "\<not> map_has m k \<Longrightarrow> map_keys (map_set m k v) = map_keys m @ [k]"
  by (simp add: map_set_absent map_keys_def)

lemma set_map_modify:
  "kv \<in> set (map_modify m k f) \<Longrightarrow> kv \<in> set m \<or> (\<exists>v. (k, v) \<in> set m \<and> kv = (k, f v))"
  by (induction m) (auto split: if_splits)

lemma first_seen_append_in: "a \<in> set ks \<Longrightarrow> first_seen (ks @ xs) a = first_seen ks a"
  unfolding first_seen_def by (induction ks) auto

lemma first_seen_new: "a \<notin> set ks \<Longrightarrow> first_seen (ks @ [a]) a = length ks"
  unfolding first_seen_def by (induction ks) auto

lemma first_seen_less: "a \<in> set ks \<Longrightarrow> first_seen ks a < length ks"
  unfolding first_seen_def by (induction ks) auto

lemma in_order_of_Nil [simp]: "in_order_of [] []"
  by (simp add: in_order_of_def)

lemma in_order_of_step:
  assumes "in_order_of ks keys"
  shows "in_order_of (ks @ [k]) (if k \<in> set keys then keys else keys @ [k])"
proof -
  from assms have s: "sorted_wrt (\<lambda>a b. first_seen ks a < first_seen ks b) keys"
    and e: "set keys = set ks" by (simp_all add: in_order_of_def)
  have s': "sorted_wrt (\<lambda>a b. first_seen (ks @ [k]) a < first_seen (ks @ [k]) b) keys"
    by (rule sorted_wrt_mono_rel [OF _ s]) (simp add: e first_seen_append_in)
  show ?thesis
  proof (cases "k \<in> set keys")
    case True
    with s' e show ?thesis by (auto simp: in_order_of_def)
  next
    case False
    with e have "k \<notin> set ks" by simp
    then have "\<forall>a\<in>set keys. first_seen (ks @ [k]) a < first_seen (ks @ [k]) k"
      using e by (simp add: first_seen_new first_seen_append_in first_seen_less)
    with s' e False show ?thesis by (auto simp: in_order_of_def sorted_wrt_append)
  qed
qed

subsection \<open>Daily email: the order of the countries\<close>

lemma upsert_absent: "\<not> map_has m k \<Longrightarrow> map_modify (map_set m k v0) k f = m @ [(k, f v0)]"
  by (induction m) auto

lemma process_row_result:
  assumes "process_row lm row st = Inr st'"
  shows "(\<not> positive_cost row \<and> st' = st) \<or>
    (positive_cost row \<and>
      (\<exists>r i c v. 0 < r \<and> st' = accumulate (country_name_of lm (CriteriaId row)) (Num r) i c v st))"
proof (cases "replace_commas (Cost row)")
  case (Inl e)
  with assms show ?thesis by (simp add: process_row_def)
next
  case (Inr costStr)
  show ?thesis
  proof (cases "js_gt (parseFloat_str costStr) (Num 0)")
    case False
    with assms Inr show ?thesis by (simp add: process_row_def positive_cost_def)
  next
    case True
    then obtain r where r: "0 < r" "parseFloat_str costStr = Num r"
      using js_gt_zero_Num [OF True parseFloat_str_cases] by blast
    from assms Inr True r have "\<exists>i c v. st' = accumulate (country_name_of lm (CriteriaId row)) (Num r) i c v st"
      by (auto simp: process_row_def split: sum.splits)
    with Inr True r show ?thesis by (auto simp: positive_cost_def)
  qed
qed

lemma daily_inv_accumulate:
  assumes inv: "daily_inv lm done st" and pos: "positive_cost row" and r: "0 < r"
  shows "daily_inv lm (done @ [row]) (accumulate (country_name_of lm (CriteriaId row)) (Num r) i c v st)"
proof -
  let ?n = "country_name_of lm (CriteriaId row)"
  let ?ks = "map (\<lambda>row. country_name_of lm (CriteriaId row)) (filter positive_cost done)"
  let ?f = "add_metrics (Num r) i c v :: country_stats \<Rightarrow> country_stats"
  from inv have ord: "in_order_of ?ks (map_keys (fst st))"
    and vals: "\<forall>kv \<in> set (fst st). name (snd kv) = fst kv \<and> (\<exists>r. 0 < r \<and> spend (snd kv) = Num r)"
    by (simp_all add: daily_inv_def)
  have f_name: "name (?f x) = name x" for x by (simp add: add_metrics_def)
  show ?thesis
  proof (cases "map_has (fst st) ?n")
    case True
    then have mem: "?n \<in> set (map_keys (fst st))" by (simp add: map_has_iff)
    have keys: "map_keys (fst (accumulate ?n (Num r) i c v st)) = map_keys (fst st)"
      using True by (simp add: accumulate_def)
    have "in_order_of (?ks @ [?n]) (map_keys (fst st))"
      using in_order_of_step [OF ord, of ?n] mem by simp
    moreover have "\<forall>kv \<in> set (fst (accumulate ?n (Num r) i c v st)).
        name (snd kv) = fst kv \<and> (\<exists>r. 0 < r \<and> spend (snd kv) = Num r)"
    proof
      fix kv assume "kv \<in> set (fst (accumulate ?n (Num r) i c v st))"
      then have "kv \<in> set (map_modify (fst st) ?n ?f)" using True by (simp add: accumulate_def)
      then have "kv \<in> set (fst st) \<or> (\<exists>x. (?n, x) \<in> set (fst st) \<and> kv = (?n, ?f x))"
        by (rule set_map_modify)
      then show "name (snd kv) = fst kv \<and> (\<exists>r. 0 < r \<and> spend (snd kv) = Num r)"
      proof
        assume "kv \<in> set (fst st)" with vals show ?thesis by blast
      next
        assume "\<exists>x. (?n, x) \<in> set (fst st) \<and> kv = (?n, ?f x)"
        then obtain x where x: "(?n, x) \<in> set (fst st)" "kv = (?n, ?f x)" by blast
        with vals obtain r' where "name x = ?n" "0 < r'" "spend x = Num r'" by fastforce
        with x r show ?thesis by (auto simp: add_metrics_def intro: add_pos_pos)
      qed
    qed
    ultimately show ?thesis using pos keys by (simp add: daily_inv_def)
  next
    case False
    then have nmem: "?n \<notin> set (map_keys (fst st))" by (simp add: map_has_iff)
    have fst_acc: "fst (accumulate ?n (Num r) i c v st) = fst st @ [(?n, ?f (new_country ?n))]"
      using False by (simp add: accumulate_def upsert_absent)
    have "in_order_of (?ks @ [?n]) (map_keys (fst st) @ [?n])"
      using in_order_of_step [OF ord, of ?n] nmem by simp
    moreover have "name (?f (new_country ?n)) = ?n \<and> (\<exists>r'. 0 < r' \<and> spend (?f (new_country ?n)) = Num r')"
      using r by (simp add: add_metrics_def new_country_def)
    ultimately show ?thesis using pos vals fst_acc by (auto simp: daily_inv_def map_keys_def)
  qed
qed

lemma daily_inv_skip: "daily_inv lm done st \<Longrightarrow> \<not> positive_cost row \<Longrightarrow> daily_inv lm (done @ [row]) st"
  by (simp add: daily_inv_def)

lemma daily_inv_rows_loop:
  "daily_inv lm done st \<Longrightarrow> rows_loop lm rows st = Inr st' \<Longrightarrow> daily_inv lm (done @ rows) st'"
proof (induction rows arbitrary: "done" st)
  case Nil
  then show ?case by simp
next
  case (Cons row rows)
  from Cons.prems(2) obtain st1
    where 1: "process_row lm row st = Inr st1" and 2: "rows_loop lm rows st1 = Inr st'"
    by (auto split: sum.splits)
  have "daily_inv lm (done @ [row]) st1"
    using process_row_result [OF 1] Cons.prems(1)
    by (auto simp: daily_inv_accumulate daily_inv_skip)
  from Cons.IH [OF this 2] show ?case by simp
qed

lemma daily_inv_init: "daily_inv lm [] ([], zero_totals)"
  by (simp add: daily_inv_def map_keys_def)



lemma js_gt_sub_Num [simp]: "js_gt (js_sub (Num a) (Num b)) (Num 0) = (b < a)"
  by (simp add: js_sub_def)

text \<open>The countries of a report that was built with no exception.\<close>

lemma daily_countries_sorted:
  assumes "rows_loop lm rows ([], zero_totals) = Inr st"
  defines "ks \<equiv> map (\<lambda>row. country_name_of lm (CriteriaId row)) (filter positive_cost rows)"
  shows "sorted_wrt (\<lambda>a b. js_gt (totals.spend a) (totals.spend b) \<or>
      (totals.spend a = totals.spend b \<and> first_seen ks (name a) < first_seen ks (name b)))
    (js_sort by_spend_desc (map with_ratios (map_values (fst st))))"
    and "list_all (\<lambda>c. js_gt (totals.spend c) (Num 0))
      (js_sort by_spend_desc (map with_ratios (map_values (fst st))))"
proof -
  let ?xs = "map with_ratios (map_values (fst st))"
  let ?A = "{c :: country_entry. \<exists>r. 0 < r \<and> totals.spend c = Num r}"
  let ?Q = "\<lambda>a b :: country_entry. first_seen ks (name a) < first_seen ks (name b)"
  have inv: "daily_inv lm rows st"
    using daily_inv_rows_loop [OF daily_inv_init assms(1)] by simp
  then have ord: "in_order_of ks (map_keys (fst st))"
    and vals: "\<forall>kv \<in> set (fst st). name (snd kv) = fst kv \<and> (\<exists>r. 0 < r \<and> spend (snd kv) = Num r)"
    by (simp_all add: daily_inv_def ks_def)
  have names: "map name ?xs = map_keys (fst st)"
    using vals by (simp add: map_values_def map_keys_def)
  have inA: "set ?xs \<subseteq> ?A"
    using vals by (auto simp: map_values_def)
  have "sorted_wrt (\<lambda>a b. first_seen ks a < first_seen ks b) (map name ?xs)"
    using ord names by (simp add: in_order_of_def)
  then have Q: "sorted_wrt ?Q ?xs" by (simp add: sorted_wrt_map)
  have "sorted_wrt (\<lambda>a b. js_gt (by_spend_desc b a) (Num 0) \<or>
      (\<not> js_gt (by_spend_desc a b) (Num 0) \<and> ?Q a b)) (js_sort by_spend_desc ?xs)"
    by (rule js_sort_sorted [where A = ?A, OF _ _ inA Q]) (auto simp: by_spend_desc_def)
  then show "sorted_wrt (\<lambda>a b. js_gt (totals.spend a) (totals.spend b) \<or>
      (totals.spend a = totals.spend b \<and> first_seen ks (name a) < first_seen ks (name b)))
    (js_sort by_spend_desc ?xs)"
  proof (rule sorted_wrt_mono_rel [rotated])
    fix a b
    assume "a \<in> set (js_sort by_spend_desc ?xs)" "b \<in> set (js_sort by_spend_desc ?xs)"
      and h: "js_gt (by_spend_desc b a) (Num 0) \<or> (\<not> js_gt (by_spend_desc a b) (Num 0) \<and> ?Q a b)"
    then have "a \<in> ?A" "b \<in> ?A" using inA by auto
    then obtain ra rb where "totals.spend a = Num ra" "totals.spend b = Num rb"
      by blast
    with h show "js_gt (totals.spend a) (totals.spend b) \<or>
      (totals.spend a = totals.spend b \<and> first_seen ks (name a) < first_seen ks (name b))"
      by (auto simp: by_spend_desc_def)
  qed
  show "list_all (\<lambda>c. js_gt (totals.spend c) (Num 0)) (js_sort by_spend_desc ?xs)"
    using inA by (auto simp: list_all_iff)
qed

subsection \<open>Exporter: the order of the rows\<close>

lemma is_finite_Num [simp]: "is_finite (Num r)" "\<not> is_finite NaN" "\<not> is_finite PInf" "\<not> is_finite NInf"
  by (simp_all add: is_finite_def)

lemma is_finite_iff: "is_finite n = (\<exists>r. n = Num r)"
  by (cases n) simp_all

lemma parseFloat_cases: "parseFloat v = NaN \<or> (\<exists>r. parseFloat v = Num r)"
  by (simp add: parseFloat_def parseFloat_str_cases)

lemma js_or_zero_finite: "n = NaN \<or> (\<exists>r. n = Num r) \<Longrightarrow> is_finite (js_or n (Num 0))"
  by (auto simp: js_or_def js_truthy_def)

lemma is_finite_add: "is_finite a \<Longrightarrow> is_finite b \<Longrightarrow> is_finite (js_add a b)"
  by (auto simp: is_finite_iff)

lemma is_finite_div_million: "is_finite a \<Longrightarrow> is_finite (js_div a (Num 1000000))"
  by (cases a) simp_all

lemma finite_data_add_geo_row: "finite_data d \<Longrightarrow> finite_data (add_geo_row row d)"
  by (simp add: finite_data_def add_geo_row_def is_finite_add is_finite_div_million
      js_or_zero_finite parseInt_cases parseFloat_cases)

lemma finite_data_new [simp]: "finite_data new_country_data"
  by (simp add: finite_data_def new_country_data_def)

lemma exporter_inv_step:
  assumes inv: "exporter_inv cn done m"
  shows "exporter_inv cn (done @ [row]) (aggregate_row cn row m)"
proof -
  let ?n = "country_label cn (country_criterion_id row)"
  let ?ks = "map (\<lambda>row. country_label cn (country_criterion_id row)) done"
  from inv have ord: "in_order_of ?ks (map_keys m)" and fin: "\<forall>kv \<in> set m. finite_data (snd kv)"
    by (simp_all add: exporter_inv_def)
  show ?thesis
  proof (cases "map_has m ?n")
    case True
    then have mem: "?n \<in> set (map_keys m)" by (simp add: map_has_iff)
    have agg: "aggregate_row cn row m = map_modify m ?n (add_geo_row row)"
      using True by (simp add: aggregate_row_def)
    have "in_order_of (?ks @ [?n]) (map_keys m)"
      using in_order_of_step [OF ord, of ?n] mem by simp
    moreover have "\<forall>kv \<in> set (map_modify m ?n (add_geo_row row)). finite_data (snd kv)"
    proof
      fix kv assume "kv \<in> set (map_modify m ?n (add_geo_row row))"
      then have "kv \<in> set m \<or> (\<exists>x. (?n, x) \<in> set m \<and> kv = (?n, add_geo_row row x))"
        by (rule set_map_modify)
      with fin show "finite_data (snd kv)" by (auto simp: finite_data_add_geo_row)
    qed
    ultimately show ?thesis by (simp add: exporter_inv_def agg)
  next
    case False
    then have nmem: "?n \<notin> set (map_keys m)" by (simp add: map_has_iff)
    have agg: "aggregate_row cn row m = m @ [(?n, add_geo_row row new_country_data)]"
      using False by (simp add: aggregate_row_def upsert_absent)
    have "in_order_of (?ks @ [?n]) (map_keys m @ [?n])"
      using in_order_of_step [OF ord, of ?n] nmem by simp
    with fin show ?thesis
      by (auto simp: exporter_inv_def agg map_keys_def finite_data_add_geo_row)
  qed
qed

lemma exporter_inv_fold:
  "exporter_inv cn done m \<Longrightarrow> exporter_inv cn (done @ rows) (fold (aggregate_row cn) rows m)"
proof (induction rows arbitrary: "done" m)
  case Nil
  then show ?case by simp
next
  case (Cons row rows)
  from Cons.IH [OF exporter_inv_step [OF Cons.prems, of row]] show ?case by simp
qed

lemma exporter_inv_aggregate: "exporter_inv cn rows (aggregate_countries cn rows)"
  using exporter_inv_fold [of cn "[]" "[]" rows]
  by (simp add: aggregate_countries_def exporter_inv_def map_keys_def)

lemma country_sheet_row_sel [simp]:
  "col_country (country_sheet_row kv) = fst kv"
  "col_cost (country_sheet_row kv) = country_data.cost (snd kv)"
  by (simp_all add: country_sheet_row_def Let_def)

lemma exporter_rows_sorted:
  defines "ks \<equiv> \<lambda>constRows rows. map (geo_country constRows) rows"
  shows "sorted_wrt (\<lambda>a b. js_gt (col_cost a) (col_cost b) \<or>
      (col_cost a = col_cost b \<and>
       first_seen (ks constRows rows) (col_country a) < first_seen (ks constRows rows) (col_country b)))
    (top_countries_rows constRows rows)"
proof -
  let ?m = "aggregate_countries (getCountryNames constRows) rows"
  let ?xs = "map country_sheet_row ?m"
  let ?A = "{c :: sheet_row. \<exists>r. col_cost c = Num r}"
  let ?Q = "\<lambda>a b :: sheet_row.
    first_seen (ks constRows rows) (col_country a) < first_seen (ks constRows rows) (col_country b)"
  have inv: "exporter_inv (getCountryNames constRows) rows ?m"
    by (rule exporter_inv_aggregate)
  have ks: "ks constRows rows
      = map (\<lambda>row. country_label (getCountryNames constRows) (country_criterion_id row)) rows"
    by (simp add: ks_def geo_country_def)
  from inv have ord: "in_order_of (ks constRows rows) (map_keys ?m)"
    and fin: "\<forall>kv \<in> set ?m. finite_data (snd kv)"
    by (simp_all add: exporter_inv_def ks)
  have names: "map col_country ?xs = map_keys ?m"
    by (simp add: map_keys_def)
  have inA: "set ?xs \<subseteq> ?A"
    using fin by (auto simp: finite_data_def is_finite_iff)
  have "sorted_wrt (\<lambda>a b. first_seen (ks constRows rows) a < first_seen (ks constRows rows) b)
      (map col_country ?xs)"
    using ord names by (simp add: in_order_of_def)
  then have Q: "sorted_wrt ?Q ?xs" by (simp add: sorted_wrt_map)
  have "sorted_wrt (\<lambda>a b. js_gt (by_cost_desc b a) (Num 0) \<or>
      (\<not> js_gt (by_cost_desc a b) (Num 0) \<and> ?Q a b)) (js_sort by_cost_desc ?xs)"
    by (rule js_sort_sorted [where A = ?A, OF _ _ inA Q]) (auto simp: by_cost_desc_def)
  then have "sorted_wrt (\<lambda>a b. js_gt (col_cost a) (col_cost b) \<or> (col_cost a = col_cost b \<and> ?Q a b))
    (js_sort by_cost_desc ?xs)"
  proof (rule sorted_wrt_mono_rel [rotated])
    fix a b
    assume "a \<in> set (js_sort by_cost_desc ?xs)" "b \<in> set (js_sort by_cost_desc ?xs)"
      and h: "js_gt (by_cost_desc b a) (Num 0) \<or> (\<not> js_gt (by_cost_desc a b) (Num 0) \<and> ?Q a b)"
    then have "a \<in> ?A" "b \<in> ?A" using inA by auto
    then obtain ra rb where "col_cost a = Num ra" "col_cost b = Num rb"
      by blast
    with h show "js_gt (col_cost a) (col_cost b) \<or> (col_cost a = col_cost b \<and> ?Q a b)"
      by (auto simp: by_cost_desc_def)
  qed
  then show ?thesis by (simp add: top_countries_rows_def)
qed

lemmas example_defs = example_locations_def example_target_rows_def example_geo_rows_def
  example_cost_rows_def example_term_rows_def example_config_def example_world_def code_order_def

lemmas exporter_defs = top_countries_rows_def aggregate_countries_def aggregate_row_def
  getCountryNames_def country_label_def new_country_data_def add_geo_row_def map_has_def
  country_sheet_row_def by_cost_desc_def js_sort_def js_sub_def geo_country_def

lemmas group_defs = email_groups_def group_by_campaign_def group_item_def map_has_def
  sortedCampaigns_of_def campaign_cmp_def total_of_def localeCompare_def campaign_items_def
  map_keys_def group_clicks_def emailData_from_def

text \<open>
  Claim C4, as the code has it. In both country aggregations the output is in descending
  order of the summed cost, and countries with equal sums are in the order in which they
  first entered the aggregation: of two entries, the earlier one has the greater sum, or
  the same sum and an earlier first row. In the exporter every row of the report enters;
  in the daily script only the rows with a positive cost do, so a row with no positive
  cost does not fix the place of its country. The sums are finite numbers, so no
  comparison is with NaN.
\<close>

theorem C4_sorted_by_cost_then_first_appearance:
  "sorted_wrt (\<lambda>a b. js_gt (totals.spend a) (totals.spend b) \<or>
      (totals.spend a = totals.spend b \<and>
       first_seen (map (row_country locationRows) (filter positive_cost rows)) (name a)
         < first_seen (map (row_country locationRows) (filter positive_cost rows)) (name b)))
     (countries (getCountryData locationRows rows)) \<and>
   sorted_wrt (\<lambda>a b. js_gt (col_cost a) (col_cost b) \<or>
      (col_cost a = col_cost b \<and>
       first_seen (map (geo_country constRows) geoRows) (col_country a)
         < first_seen (map (geo_country constRows) geoRows) (col_country b)))
     (top_countries_rows constRows geoRows)"
proof
  show "sorted_wrt (\<lambda>a b. js_gt (totals.spend a) (totals.spend b) \<or>
      (totals.spend a = totals.spend b \<and>
       first_seen (map (row_country locationRows) (filter positive_cost rows)) (name a)
         < first_seen (map (row_country locationRows) (filter positive_cost rows)) (name b)))
     (countries (getCountryData locationRows rows))"
  proof (cases "rows_loop (locationMap_of locationRows) rows ([], zero_totals)")
    case (Inl e)
    then show ?thesis by (simp add: getCountryData_def)
  next
    case (Inr st)
    have rc: "row_country locationRows = (\<lambda>row. country_name_of (locationMap_of locationRows) (CriteriaId row))"
      by (simp add: row_country_def fun_eq_iff)
    show ?thesis
      using daily_countries_sorted(1) [OF Inr] Inr by (simp add: getCountryData_def rc)
  qed
  show "sorted_wrt (\<lambda>a b. js_gt (col_cost a) (col_cost b) \<or>
      (col_cost a = col_cost b \<and>
       first_seen (map (geo_country constRows) geoRows) (col_country a)
         < first_seen (map (geo_country constRows) geoRows) (col_country b)))
     (top_countries_rows constRows geoRows)"
    by (rule exporter_rows_sorted)
qed

theorem C4_sorted_by_cost_then_first_appearance_witness:
  "(sorted_wrt (\<lambda>a b. js_gt (totals.spend a) (totals.spend b) \<or>
      (totals.spend a = totals.spend b \<and>
       first_seen (map (row_country example_locations) (filter positive_cost example_target_rows)) (name a)
         < first_seen (map (row_country example_locations) (filter positive_cost example_target_rows)) (name b)))
     (countries (getCountryData example_locations example_target_rows)) \<and>
   sorted_wrt (\<lambda>a b. js_gt (col_cost a) (col_cost b) \<or>
      (col_cost a = col_cost b \<and>
       first_seen (map (geo_country example_locations) example_geo_rows) (col_country a)
         < first_seen (map (geo_country example_locations) example_geo_rows) (col_country b)))
     (top_countries_rows example_locations example_geo_rows)) \<and>
   map (\<lambda>c. (name c, totals.spend c)) (countries (getCountryData example_locations example_target_rows))
     = [(''US'', Num 80), (''FR'', Num 40)] \<and>
   map (\<lambda>r. (col_country r, col_cost r)) (top_countries_rows example_locations example_geo_rows)
     = [(''US'', Num 80), (''FR'', Num 40)]"
proof (intro conjI)
  show "map (\<lambda>c. (name c, totals.spend c)) (countries (getCountryData example_locations example_target_rows))
     = [(''US'', Num 80), (''FR'', Num 40)]"
    by (simp add: example_defs daily_defs parse_defs)
  show "map (\<lambda>r. (col_country r, col_cost r)) (top_countries_rows example_locations example_geo_rows)
     = [(''US'', Num 80), (''FR'', Num 40)]"
    by (simp add: example_defs exporter_defs parse_defs Let_def)
qed (rule conjunct1 [OF C4_sorted_by_cost_then_first_appearance] conjunct2 [OF C4_sorted_by_cost_then_first_appearance])+

text \<open>
  With the order of first appearance taken over all rows of the input, the claim fails
  on the daily script: FR appears first, in a row that costs nothing, US and FR then
  each spend 10, and the report lists US before FR.
\<close>

theorem C4_first_appearance_counterexample:
  "map (row_country example_locations) example_tie_rows = [''FR'', ''US'', ''FR''] \<and>
   map (\<lambda>c. (name c, totals.spend c))
       (countries (getCountryData example_locations example_tie_rows))
     = [(''US'', Num 10), (''FR'', Num 10)] \<and>
   \<not> sorted_wrt (\<lambda>a b. js_gt (totals.spend a) (totals.spend b) \<or>
      (totals.spend a = totals.spend b \<and>
       first_seen (map (row_country example_locations) example_tie_rows) (name a)
         < first_seen (map (row_country example_locations) example_tie_rows) (name b)))
     (countries (getCountryData example_locations example_tie_rows))"
  by (simp add: example_tie_rows_def example_defs daily_defs parse_defs row_country_def
      first_seen_def)

subsection \<open>Daily email: rows with no positive cost\<close>



subsection \<open>New search queries: the tables of the mail\<close>

lemma in_order_of_distinct: "in_order_of ks keys \<Longrightarrow> distinct keys"
proof -
  assume "in_order_of ks keys"
  then have "sorted_wrt (<) (map (first_seen ks) keys)"
    by (simp add: in_order_of_def sorted_wrt_map)
  then have "distinct (map (first_seen ks) keys)"
    by (simp add: strict_sorted_iff)
  then show "distinct keys" by (simp add: distinct_map)
qed

lemma in_order_of_set: "in_order_of ks keys \<Longrightarrow> set keys = set ks"
  by (simp add: in_order_of_def)

text \<open>With distinct keys, a mutation touches the one entry of its key.\<close>

lemma map_modify_distinct:
  "distinct (map_keys m) \<Longrightarrow>
    map_modify m k f = map (\<lambda>kv. (fst kv, if fst kv = k then f (snd kv) else snd kv)) m"
proof (induction m)
  case Nil
  then show ?case by simp
next
  case (Cons p m)
  obtain k' v' where p: "p = (k', v')" by (cases p)
  show ?case
  proof (cases "k' = k")
    case True
    with Cons.prems p have "k \<notin> fst ` set m" by (simp add: map_keys_def)
    then have "map (\<lambda>kv. (fst kv, if fst kv = k then f (snd kv) else snd kv)) m = m"
      by (induction m) auto
    with True p show ?thesis by simp
  next
    case False
    with Cons p show ?thesis by (simp add: map_keys_def)
  qed
qed

lemma js_sum_snoc: "js_sum (xs @ [x]) = js_add (js_sum xs) x"
  by (simp add: js_sum_append)

lemma grouped_step:
  assumes g: "grouped done m"
  shows "grouped (done @ [it]) (group_item it m)"
proof -
  let ?key = "campaignName it"
  from g have ord: "in_order_of (map campaignName done) (map_keys (fst m))"
    and same: "map_keys (snd m) = map_keys (fst m)"
    and items: "\<forall>kv \<in> set (fst m). snd kv = filter (\<lambda>i. campaignName i = fst kv) done"
    and tots: "\<forall>kt \<in> set (snd m).
         snd kt = js_sum (map item.clicks (filter (\<lambda>i. campaignName i = fst kt) done))"
    by (simp_all add: grouped_def)
  have d1: "distinct (map_keys (fst m))" using ord by (rule in_order_of_distinct)
  have d2: "distinct (map_keys (snd m))" using d1 same by simp
  have keys: "set (map_keys (fst m)) = campaignName ` set done"
    using in_order_of_set [OF ord] by simp
  show ?thesis
  proof (cases "map_has (fst m) ?key")
    case True
    then have mem: "?key \<in> set (map_keys (fst m))" by (simp add: map_has_iff)
    have gi: "group_item it m = (map_modify (fst m) ?key (\<lambda>items. items @ [it]),
        map_modify (snd m) ?key (\<lambda>total. js_add total (item.clicks it)))"
      using True by (simp add: group_item_def Let_def)
    have "in_order_of (map campaignName (done @ [it])) (map_keys (fst m))"
      using in_order_of_step [OF ord, of ?key] mem by simp
    moreover have "\<forall>kv \<in> set (map_modify (fst m) ?key (\<lambda>items. items @ [it])).
        snd kv = filter (\<lambda>i. campaignName i = fst kv) (done @ [it])"
      using items by (auto simp: map_modify_distinct [OF d1])
    moreover have "\<forall>kt \<in> set (map_modify (snd m) ?key (\<lambda>total. js_add total (item.clicks it))).
        snd kt = js_sum (map item.clicks (filter (\<lambda>i. campaignName i = fst kt) (done @ [it])))"
      using tots by (auto simp: map_modify_distinct [OF d2] js_sum_snoc)
    ultimately show ?thesis using same by (simp add: grouped_def gi)
  next
    case False
    then have nmem: "?key \<notin> set (map_keys (fst m))" by (simp add: map_has_iff)
    have "campaignName x \<noteq> ?key" if "x \<in> set done" for x
    proof
      assume "campaignName x = ?key"
      with that have "?key \<in> campaignName ` set done" by (metis imageI)
      with nmem keys show False by simp
    qed
    then have none: "filter (\<lambda>i. campaignName i = ?key) done = []"
      by (simp add: filter_empty_conv)
    have False2: "\<not> map_has (snd m) ?key" using nmem same by (simp add: map_has_iff)
    have gi: "group_item it m = (fst m @ [(?key, [it])], snd m @ [(?key, item.clicks it)])"
      using False False2 by (simp add: group_item_def Let_def upsert_absent)
    have "in_order_of (map campaignName (done @ [it])) (map_keys (fst m) @ [?key])"
      using in_order_of_step [OF ord, of ?key] nmem by simp
    moreover have "\<forall>kv \<in> set (fst m). fst kv \<noteq> ?key"
      using nmem by (force simp: map_keys_def)
    moreover have "\<forall>kt \<in> set (snd m). fst kt \<noteq> ?key"
    proof -
      have "?key \<notin> set (map_keys (snd m))" using nmem same by simp
      then show ?thesis by (force simp: map_keys_def)
    qed
    ultimately show ?thesis
      using same items tots none by (auto simp: grouped_def gi map_keys_def)
  qed
qed

lemma grouped_fold: "grouped done m \<Longrightarrow> grouped (done @ ed) (fold group_item ed m)"
proof (induction ed arbitrary: "done" m)
  case Nil
  then show ?case by simp
next
  case (Cons it ed)
  from Cons.IH [OF grouped_step [OF Cons.prems, of it]] show ?case by simp
qed

lemma grouped_group_by_campaign: "grouped ed (group_by_campaign ed)"
  using grouped_fold [of "[]" "([], [])" ed]
  by (simp add: group_by_campaign_def grouped_def map_keys_def)

lemma is_finite_js_sum: "\<forall>x \<in> set xs. is_finite x \<Longrightarrow> is_finite (js_sum xs)"
  by (induction xs) (simp_all add: is_finite_add)

lemma item_of_clicks_finite: "is_finite (item.clicks (item_of row))"
  by (simp add: item_of_def js_or_zero_finite parseInt_cases)

lemma emailData_from_subset: "set (emailData_from priorTerms rows) \<subseteq> item_of ` set rows"
  by (auto simp: emailData_from_def emailData_of_def newData_of_def yesterdayData_of_def)

lemma emailData_from_finite: "\<forall>i \<in> set (emailData_from priorTerms rows). is_finite (item.clicks i)"
  using emailData_from_subset [of priorTerms rows] item_of_clicks_finite by auto

text \<open>What the comparator of the campaigns decides, when both totals are finite.\<close>

lemma campaign_cmp_gt:
  assumes "total_of tots a = Num ta" and "total_of tots b = Num tb"
  shows "js_gt (campaign_cmp collation tots b a) (Num 0)
    = (tb < ta \<or> (ta = tb \<and> collation a < collation b))"
  using assms by (auto simp: campaign_cmp_def Let_def localeCompare_def js_sub_def)

lemma by_clicks_desc_gt:
  assumes "item.clicks a = Num ca" and "item.clicks b = Num cb"
  shows "js_gt (by_clicks_desc b a) (Num 0) = (cb < ca)"
  using assms by (simp add: by_clicks_desc_def)

text \<open>Sorting items by clicks: no item is followed by one with more clicks.\<close>

lemma sort_by_clicks_sorted:
  assumes "\<forall>i \<in> set xs. is_finite (item.clicks i)"
  shows "sorted_wrt (\<lambda>x y. js_gt (item.clicks x) (item.clicks y) \<or> item.clicks x = item.clicks y)
    (js_sort by_clicks_desc xs)"
proof -
  let ?A = "{i. \<exists>r. item.clicks i = Num r}"
  have inA: "set xs \<subseteq> ?A" using assms by (auto simp: is_finite_iff)
  have Q: "sorted_wrt (\<lambda>a b. True) xs" by (induction xs) simp_all
  have "sorted_wrt (\<lambda>a b. js_gt (by_clicks_desc b a) (Num 0) \<or>
      (\<not> js_gt (by_clicks_desc a b) (Num 0) \<and> True)) (js_sort by_clicks_desc xs)"
    by (rule js_sort_sorted [where A = ?A, OF _ _ inA Q]) (auto simp: by_clicks_desc_def)
  then show ?thesis
  proof (rule sorted_wrt_mono_rel [rotated])
    fix a b
    assume "a \<in> set (js_sort by_clicks_desc xs)" "b \<in> set (js_sort by_clicks_desc xs)"
      and h: "js_gt (by_clicks_desc b a) (Num 0) \<or> (\<not> js_gt (by_clicks_desc a b) (Num 0) \<and> True)"
    then have "a \<in> ?A" "b \<in> ?A" using inA by auto
    then obtain ra rb where "item.clicks a = Num ra" "item.clicks b = Num rb" by blast
    with h show "js_gt (item.clicks a) (item.clicks b) \<or> item.clicks a = item.clicks b"
      by (auto simp: by_clicks_desc_def)
  qed
qed

text \<open>The properties of the tables of the mail, for items with finite clicks.\<close>

lemma email_groups_props:
  fixes collation :: "string \<Rightarrow> 'k::linorder"
  assumes fin: "\<forall>i \<in> set ed. is_finite (item.clicks i)"
  defines "groups \<equiv> email_groups collation ed"
  shows "distinct (map fst groups)"
    and "set (map fst groups) = campaignName ` set ed"
    and "\<forall>g \<in> set groups. snd g = js_sort by_clicks_desc (filter (\<lambda>i. campaignName i = fst g) ed)"
    and "sorted_wrt (\<lambda>g h. js_gt (group_clicks g) (group_clicks h) \<or>
          (group_clicks g = group_clicks h \<and> collation (fst g) \<le> collation (fst h))) groups"
proof -
  let ?m = "group_by_campaign ed"
  let ?keys = "map_keys (fst ?m)"
  let ?T = "\<lambda>c. js_sum (map item.clicks (filter (\<lambda>i. campaignName i = c) ed))"
  let ?sorted = "sortedCampaigns_of collation ?m"
  have G: "grouped ed ?m" by (rule grouped_group_by_campaign)
  then have ord: "in_order_of (map campaignName ed) ?keys"
    and same: "map_keys (snd ?m) = ?keys"
    and items: "\<forall>kv \<in> set (fst ?m). snd kv = filter (\<lambda>i. campaignName i = fst kv) ed"
    and tots: "\<forall>kt \<in> set (snd ?m). snd kt = ?T (fst kt)"
    by (simp_all add: grouped_def)
  have d1: "distinct ?keys" using ord by (rule in_order_of_distinct)
  have keys: "set ?keys = campaignName ` set ed" using in_order_of_set [OF ord] by simp
  have d1': "distinct (map fst (fst ?m))" using d1 by (simp add: map_keys_def)
  have d2': "distinct (map fst (snd ?m))" using d1 same by (simp add: map_keys_def)
  have look1: "map_of (fst ?m) c = Some (filter (\<lambda>i. campaignName i = c) ed)" if "c \<in> set ?keys" for c
  proof -
    from that obtain v where v: "(c, v) \<in> set (fst ?m)" by (auto simp: map_keys_def)
    with items have "v = filter (\<lambda>i. campaignName i = c) ed" by fastforce
    with v d1' show ?thesis by simp
  qed
  have look2: "total_of (snd ?m) c = ?T c" if "c \<in> set ?keys" for c
  proof -
    from that same obtain t where t: "(c, t) \<in> set (snd ?m)"
      by (metis (no_types, lifting) imageE list.set_map map_keys_def prod.collapse)
    with tots have "t = ?T c" by fastforce
    with t d2' show ?thesis by (simp add: total_of_def)
  qed
  have finT: "\<exists>r. ?T c = Num r" for c
    using is_finite_js_sum [of "map item.clicks (filter (\<lambda>i. campaignName i = c) ed)"] fin
    by (auto simp: is_finite_iff)
  then obtain ra where ra: "\<And>c. ?T c = Num (ra c)" by metis
  have set_sorted: "set ?sorted = set ?keys" by (simp add: sortedCampaigns_of_def)
  have groups: "groups = map (\<lambda>c. (c, campaign_items ?m c)) ?sorted"
    by (simp add: groups_def email_groups_def Let_def)
  have fst_groups: "map fst groups = ?sorted" by (simp add: groups comp_def)
  have "mset ?sorted = mset ?keys" by (simp add: sortedCampaigns_of_def)
  then have "distinct ?sorted" using d1 by (metis mset_eq_imp_distinct_iff)
  then show "distinct (map fst groups)" by (simp add: fst_groups)
  show "set (map fst groups) = campaignName ` set ed"
    using set_sorted keys by (simp add: fst_groups)
  have snd_g: "campaign_items ?m c = js_sort by_clicks_desc (filter (\<lambda>i. campaignName i = c) ed)"
    if "c \<in> set ?keys" for c
    using look1 [OF that] by (simp add: campaign_items_def)
  show 3: "\<forall>g \<in> set groups. snd g = js_sort by_clicks_desc (filter (\<lambda>i. campaignName i = fst g) ed)"
    using snd_g set_sorted by (auto simp: groups)
  have gc: "group_clicks (c, campaign_items ?m c) = Num (ra c)" if "c \<in> set ?keys" for c
    using snd_g [OF that] ra [of c] by (simp add: group_clicks_def js_sum_sort)
  have tot: "total_of (snd ?m) c = Num (ra c)" if "c \<in> set ?keys" for c
    using look2 [OF that] ra [of c] by simp
  have Q: "sorted_wrt (\<lambda>a b. True) ?keys" by (induction ?keys) simp_all
  have "sorted_wrt (\<lambda>a b. js_gt (campaign_cmp collation (snd ?m) b a) (Num 0) \<or>
      (\<not> js_gt (campaign_cmp collation (snd ?m) a b) (Num 0) \<and> True)) ?sorted"
    unfolding sortedCampaigns_of_def
  proof (rule js_sort_sorted [where A = "set ?keys", OF _ _ _ Q])
    show "set ?keys \<subseteq> set ?keys" by simp
  next
    fix a b assume "a \<in> set ?keys" "b \<in> set ?keys"
      and "js_gt (campaign_cmp collation (snd ?m) b a) (Num 0)"
    then show "\<not> js_gt (campaign_cmp collation (snd ?m) a b) (Num 0)"
      by (auto simp: campaign_cmp_gt [OF tot tot])
  next
    fix a b c assume "a \<in> set ?keys" "b \<in> set ?keys" "c \<in> set ?keys"
      and "\<not> js_gt (campaign_cmp collation (snd ?m) b a) (Num 0)"
      and "\<not> js_gt (campaign_cmp collation (snd ?m) c b) (Num 0)"
    then show "\<not> js_gt (campaign_cmp collation (snd ?m) c a) (Num 0)"
      by (auto simp: campaign_cmp_gt [OF tot tot])
  qed
  then have "sorted_wrt (\<lambda>a b. ra b < ra a \<or> (ra a = ra b \<and> collation a \<le> collation b)) ?sorted"
  proof (rule sorted_wrt_mono_rel [rotated])
    fix a b
    assume "a \<in> set ?sorted" "b \<in> set ?sorted"
      and h: "js_gt (campaign_cmp collation (snd ?m) b a) (Num 0) \<or>
        (\<not> js_gt (campaign_cmp collation (snd ?m) a b) (Num 0) \<and> True)"
    then have "a \<in> set ?keys" "b \<in> set ?keys" using set_sorted by auto
    with h show "ra b < ra a \<or> (ra a = ra b \<and> collation a \<le> collation b)"
      by (auto simp: campaign_cmp_gt [OF tot tot])
  qed
  then have "sorted_wrt (\<lambda>a b. js_gt (group_clicks (a, campaign_items ?m a)) (group_clicks (b, campaign_items ?m b)) \<or>
          (group_clicks (a, campaign_items ?m a) = group_clicks (b, campaign_items ?m b) \<and> collation a \<le> collation b)) ?sorted"
  proof (rule sorted_wrt_mono_rel [rotated])
    fix a b
    assume "a \<in> set ?sorted" "b \<in> set ?sorted"
      and h: "ra b < ra a \<or> (ra a = ra b \<and> collation a \<le> collation b)"
    then have "a \<in> set ?keys" "b \<in> set ?keys" using set_sorted by auto
    with h show "js_gt (group_clicks (a, campaign_items ?m a)) (group_clicks (b, campaign_items ?m b)) \<or>
          (group_clicks (a, campaign_items ?m a) = group_clicks (b, campaign_items ?m b) \<and> collation a \<le> collation b)"
      by (auto simp: gc)
  qed
  then show "sorted_wrt (\<lambda>g h. js_gt (group_clicks g) (group_clicks h) \<or>
          (group_clicks g = group_clicks h \<and> collation (fst g) \<le> collation (fst h))) groups"
    by (simp add: groups sorted_wrt_map)
qed




text \<open>
  Claim C5. The tables of the mail are one per campaign name of the mailed items, each
  holding the items of its campaign. The tables are in descending order of the total
  clicks of their items, and tables with equal totals are in ascending order of the
  campaign name under the collation. Inside a table no item is followed by one with more
  clicks.
\<close>

theorem C5_campaign_tables_ordered:
  fixes collation :: "string \<Rightarrow> 'k::linorder"
  shows
  "distinct (map fst (email_groups collation (emailData_from priorTerms rows))) \<and>
   set (map fst (email_groups collation (emailData_from priorTerms rows)))
     = campaignName ` set (emailData_from priorTerms rows) \<and>
   list_all (\<lambda>g. mset (snd g)
          = mset (filter (\<lambda>i. campaignName i = fst g) (emailData_from priorTerms rows)))
     (email_groups collation (emailData_from priorTerms rows)) \<and>
   sorted_wrt (\<lambda>g h. js_gt (group_clicks g) (group_clicks h) \<or>
          (group_clicks g = group_clicks h \<and> collation (fst g) \<le> collation (fst h)))
     (email_groups collation (emailData_from priorTerms rows)) \<and>
   list_all (\<lambda>g. sorted_wrt (\<lambda>x y. js_gt (item.clicks x) (item.clicks y) \<or> item.clicks x = item.clicks y)
          (snd g))
     (email_groups collation (emailData_from priorTerms rows))"
proof -
  let ?ed = "emailData_from priorTerms rows"
  let ?groups = "email_groups collation ?ed"
  have fin: "\<forall>i \<in> set ?ed. is_finite (item.clicks i)" by (rule emailData_from_finite)
  note p = email_groups_props [OF fin, of collation]
  have 3: "list_all (\<lambda>g. mset (snd g) = mset (filter (\<lambda>i. campaignName i = fst g) ?ed)) ?groups"
    using p(3) by (simp add: list_all_iff)
  have 5: "list_all (\<lambda>g. sorted_wrt (\<lambda>x y. js_gt (item.clicks x) (item.clicks y) \<or> item.clicks x = item.clicks y)
          (snd g)) ?groups"
    unfolding list_all_iff
  proof
    fix g assume g: "g \<in> set ?groups"
    have "\<forall>i \<in> set (filter (\<lambda>i. campaignName i = fst g) ?ed). is_finite (item.clicks i)"
      using fin by simp
    from sort_by_clicks_sorted [OF this] p(3) g
    show "sorted_wrt (\<lambda>x y. js_gt (item.clicks x) (item.clicks y) \<or> item.clicks x = item.clicks y) (snd g)"
      by simp
  qed
  from p(1) p(2) 3 p(4) 5 show ?thesis by blast
qed

theorem C5_campaign_tables_ordered_witness:
  "distinct (map fst (email_groups code_order (emailData_from [] example_term_rows))) \<and>
   map (\<lambda>g. (fst g, map item.clicks (snd g), group_clicks g))
     (email_groups code_order (emailData_from [] example_term_rows))
   = [(''B'', [Num 10], Num 10), (''A'', [Num 5, Num 3], Num 8)]"
proof (rule conjI)
  show "distinct (map fst (email_groups code_order (emailData_from [] example_term_rows)))"
    by (rule conjunct1 [OF C5_campaign_tables_ordered])
  show "map (\<lambda>g. (fst g, map item.clicks (snd g), group_clicks g))
     (email_groups code_order (emailData_from [] example_term_rows))
   = [(''B'', [Num 10], Num 10), (''A'', [Num 5, Num 3], Num 8)]"
    by (simp add: example_defs group_defs queries_defs parse_defs Let_def)
qed

subsection \<open>New search queries: what the sheet and the mail receive\<close>




section \<open>Further properties of the aggregations\<close>

subsection \<open>Exporter: malformed fields and guarded ratios\<close>

lemma parseInt_zero: "parseInt (Str ''0'') = Num 0"
  by (simp add: parse_defs)

lemma parseFloat_zero: "parseFloat (Str ''0'') = Num 0"
  by (simp add: parse_defs)

lemma js_or_int_or_zero: "js_or (parseInt (int_or_zero v)) (Num 0) = js_or (parseInt v) (Num 0)"
  by (simp add: int_or_zero_def parseInt_zero js_or_def js_truthy_def)

lemma js_or_float_or_zero: "js_or (parseFloat (float_or_zero v)) (Num 0) = js_or (parseFloat v) (Num 0)"
  by (simp add: float_or_zero_def parseFloat_zero js_or_def js_truthy_def)

lemma add_geo_row_zero_malformed: "add_geo_row (zero_malformed row) = add_geo_row row"
  by (rule ext) (simp add: add_geo_row_def zero_malformed_def js_or_int_or_zero js_or_float_or_zero)

lemma aggregate_row_zero_malformed: "aggregate_row cn (zero_malformed row) = aggregate_row cn row"
  by (rule ext) (simp add: aggregate_row_def add_geo_row_zero_malformed, simp add: zero_malformed_def)

lemma fold_aggregate_zero_malformed:
  "fold (aggregate_row cn) (map zero_malformed rows) m = fold (aggregate_row cn) rows m"
  by (induction rows arbitrary: m) (simp_all add: aggregate_row_zero_malformed)

theorem exporter_malformed_fields_count_as_zero:
  "top_countries_rows constRows (map zero_malformed rows) = top_countries_rows constRows rows"
  by (simp add: top_countries_rows_def aggregate_countries_def fold_aggregate_zero_malformed)

lemma ratios_guarded_country_sheet_row:
  assumes "finite_data (snd kv)"
  shows "ratios_guarded (country_sheet_row kv)"
proof -
  from assms obtain c i k v n a where
    "country_data.clicks (snd kv) = Num c" "country_data.impressions (snd kv) = Num i"
    "country_data.cost (snd kv) = Num k" "convValue (snd kv) = Num v"
    "country_data.conversions (snd kv) = Num n" "allConversions (snd kv) = Num a"
    by (auto simp: finite_data_def is_finite_iff)
  then show ?thesis
    by (simp add: ratios_guarded_def country_sheet_row_def Let_def)
qed

theorem exporter_ratios_guarded:
  "list_all ratios_guarded (top_countries_rows constRows rows)"
proof -
  have "\<forall>kv \<in> set (aggregate_countries (getCountryNames constRows) rows). finite_data (snd kv)"
    using exporter_inv_aggregate [of "getCountryNames constRows" rows]
    by (simp add: exporter_inv_def)
  then show ?thesis
    by (auto simp: top_countries_rows_def list_all_iff ratios_guarded_country_sheet_row)
qed

lemma sheet_iferror_div_finite: "is_finite (sheet_iferror_div x y)"
  by (simp add: sheet_iferror_div_def)

lemma sheet_iferror_div_zero: "sheet_iferror_div x (Num 0) = Num 0"
  by (cases x) (simp_all add: sheet_iferror_div_def)

theorem summary_row_ratios_guarded: "ratios_guarded (summary_row rs)"
  by (simp add: ratios_guarded_def summary_row_def Let_def sheet_iferror_div_finite
      sheet_iferror_div_zero)

subsection \<open>Exporter: the counters are the sums over the rows\<close>

lemma exporter_objects_step:
  assumes inv: "exporter_inv cn done m" and obj: "exporter_objects cn done m"
  shows "exporter_objects cn (done @ [row]) (aggregate_row cn row m)"
proof -
  let ?n = "country_label cn (country_criterion_id row)"
  let ?lab = "\<lambda>row. country_label cn (country_criterion_id row)"
  from inv have ord: "in_order_of (map ?lab done) (map_keys m)"
    by (simp add: exporter_inv_def)
  have d: "distinct (map_keys m)" using ord by (rule in_order_of_distinct)
  have keys: "set (map_keys m) = ?lab ` set done" using in_order_of_set [OF ord] by simp
  show ?thesis
  proof (cases "map_has m ?n")
    case True
    have agg: "aggregate_row cn row m
        = map (\<lambda>kv. (fst kv, if fst kv = ?n then add_geo_row row (snd kv) else snd kv)) m"
      using True by (simp add: aggregate_row_def map_modify_distinct [OF d])
    show ?thesis
      unfolding exporter_objects_def agg
    proof
      fix kv' assume "kv' \<in> set (map (\<lambda>kv. (fst kv, if fst kv = ?n then add_geo_row row (snd kv) else snd kv)) m)"
      then obtain kv where kv: "kv \<in> set m"
        and kv': "kv' = (fst kv, if fst kv = ?n then add_geo_row row (snd kv) else snd kv)"
        by auto
      from obj kv have o: "snd kv = geo_object (filter (\<lambda>row. ?lab row = fst kv) done)"
        by (simp add: exporter_objects_def)
      show "snd kv' = geo_object (filter (\<lambda>row. ?lab row = fst kv') (done @ [row]))"
        using o kv' by (simp add: geo_object_def)
    qed
  next
    case False
    then have nmem: "?n \<notin> set (map_keys m)" by (simp add: map_has_iff)
    have agg: "aggregate_row cn row m = m @ [(?n, add_geo_row row new_country_data)]"
      using False by (simp add: aggregate_row_def upsert_absent)
    have "?lab x \<noteq> ?n" if "x \<in> set done" for x
    proof
      assume "?lab x = ?n"
      with that have "?n \<in> ?lab ` set done" by (metis imageI)
      with nmem keys show False by simp
    qed
    then have none: "filter (\<lambda>row. ?lab row = ?n) done = []"
      by (simp add: filter_empty_conv)
    have other: "fst kv \<noteq> ?n" if "kv \<in> set m" for kv
      using that nmem by (force simp: map_keys_def)
    show ?thesis
      unfolding exporter_objects_def agg
    proof
      fix kv assume "kv \<in> set (m @ [(?n, add_geo_row row new_country_data)])"
      then consider "kv \<in> set m" | "kv = (?n, add_geo_row row new_country_data)" by auto
      then show "snd kv = geo_object (filter (\<lambda>row. ?lab row = fst kv) (done @ [row]))"
      proof cases
        case 1
        with obj have "snd kv = geo_object (filter (\<lambda>row. ?lab row = fst kv) done)"
          by (simp add: exporter_objects_def)
        with other [OF 1] show ?thesis by auto
      next
        case 2
        with none show ?thesis by (simp add: geo_object_def)
      qed
    qed
  qed
qed

lemma exporter_objects_fold:
  "exporter_inv cn done m \<Longrightarrow> exporter_objects cn done m
    \<Longrightarrow> exporter_objects cn (done @ rows) (fold (aggregate_row cn) rows m)"
proof (induction rows arbitrary: "done" m)
  case Nil
  then show ?case by simp
next
  case (Cons row rows)
  from Cons.IH [OF exporter_inv_step [OF Cons.prems(1), of row]
      exporter_objects_step [OF Cons.prems, of row]]
  show ?case by simp
qed

lemma exporter_objects_aggregate: "exporter_objects cn rows (aggregate_countries cn rows)"
proof -
  have "exporter_inv cn [] []" by (simp add: exporter_inv_def map_keys_def)
  moreover have "exporter_objects cn [] []" by (simp add: exporter_objects_def)
  ultimately show ?thesis
    using exporter_objects_fold [of cn "[]" "[]" rows] by (simp add: aggregate_countries_def)
qed

lemma fold_add_geo_row_sums:
  "country_data.clicks (fold add_geo_row rs d) = js_add (country_data.clicks d) (js_sum (map geo_clicks rs))"
  "country_data.impressions (fold add_geo_row rs d)
     = js_add (country_data.impressions d) (js_sum (map geo_impressions rs))"
  "country_data.cost (fold add_geo_row rs d) = js_add (country_data.cost d) (js_sum (map geo_cost rs))"
  "convValue (fold add_geo_row rs d) = js_add (convValue d) (js_sum (map geo_convValue rs))"
  "country_data.conversions (fold add_geo_row rs d)
     = js_add (country_data.conversions d) (js_sum (map geo_conversions rs))"
  "allConversions (fold add_geo_row rs d) = js_add (allConversions d) (js_sum (map geo_allConversions rs))"
  by (induction rs arbitrary: d;
      simp add: add_geo_row_def js_add_assoc geo_clicks_def geo_impressions_def geo_cost_def
        geo_convValue_def geo_conversions_def geo_allConversions_def)+

lemma geo_object_sums:
  "country_data.clicks (geo_object rs) = js_sum (map geo_clicks rs)"
  "country_data.impressions (geo_object rs) = js_sum (map geo_impressions rs)"
  "country_data.cost (geo_object rs) = js_sum (map geo_cost rs)"
  "convValue (geo_object rs) = js_sum (map geo_convValue rs)"
  "country_data.conversions (geo_object rs) = js_sum (map geo_conversions rs)"
  "allConversions (geo_object rs) = js_sum (map geo_allConversions rs)"
  by (simp_all add: geo_object_def fold_add_geo_row_sums new_country_data_def)

lemma country_sheet_row_counters [simp]:
  "col_clicks (country_sheet_row kv) = country_data.clicks (snd kv)"
  "col_impressions (country_sheet_row kv) = country_data.impressions (snd kv)"
  "col_convValue (country_sheet_row kv) = convValue (snd kv)"
  "col_conversions (country_sheet_row kv) = country_data.conversions (snd kv)"
  "col_allConversions (country_sheet_row kv) = allConversions (snd kv)"
  by (simp_all add: country_sheet_row_def Let_def)

theorem exporter_rows_are_sums:
  "distinct (map col_country (top_countries_rows constRows rows)) \<and>
   set (map col_country (top_countries_rows constRows rows)) = geo_country constRows ` set rows \<and>
   list_all (\<lambda>r.
       col_clicks r = js_sum (map geo_clicks (geo_rows_of constRows rows (col_country r))) \<and>
       col_impressions r = js_sum (map geo_impressions (geo_rows_of constRows rows (col_country r))) \<and>
       col_cost r = js_sum (map geo_cost (geo_rows_of constRows rows (col_country r))) \<and>
       col_convValue r = js_sum (map geo_convValue (geo_rows_of constRows rows (col_country r))) \<and>
       col_conversions r = js_sum (map geo_conversions (geo_rows_of constRows rows (col_country r))) \<and>
       col_allConversions r
         = js_sum (map geo_allConversions (geo_rows_of constRows rows (col_country r))))
     (top_countries_rows constRows rows)"
proof -
  let ?cn = "getCountryNames constRows"
  let ?m = "aggregate_countries ?cn rows"
  let ?xs = "map country_sheet_row ?m"
  have inv: "exporter_inv ?cn rows ?m" by (rule exporter_inv_aggregate)
  have obj: "exporter_objects ?cn rows ?m" by (rule exporter_objects_aggregate)
  from inv have ord: "in_order_of (map (\<lambda>row. country_label ?cn (country_criterion_id row)) rows) (map_keys ?m)"
    by (simp add: exporter_inv_def)
  have names: "map col_country ?xs = map_keys ?m" by (simp add: map_keys_def)
  have "mset (map col_country (js_sort by_cost_desc ?xs)) = mset (map col_country ?xs)"
    by (simp only: mset_map mset_js_sort)
  then have "mset (map col_country (top_countries_rows constRows rows)) = mset (map col_country ?xs)"
    by (simp only: top_countries_rows_def)
  then have "mset (map col_country (top_countries_rows constRows rows)) = mset (map_keys ?m)"
    by (simp only: names)
  then have 1: "distinct (map col_country (top_countries_rows constRows rows))"
    using in_order_of_distinct [OF ord] by (metis mset_eq_imp_distinct_iff)
  have "set (map col_country (top_countries_rows constRows rows)) = set (map col_country ?xs)"
    by (simp only: top_countries_rows_def set_map set_js_sort)
  also have "\<dots> = set (map_keys ?m)" by (simp only: names)
  also have "\<dots> = set (map (\<lambda>row. country_label ?cn (country_criterion_id row)) rows)"
    by (rule in_order_of_set [OF ord])
  also have "\<dots> = geo_country constRows ` set rows"
    by (simp add: geo_country_def [abs_def])
  finally have 2: "set (map col_country (top_countries_rows constRows rows))
      = geo_country constRows ` set rows" .
  have 3: "list_all (\<lambda>r.
       col_clicks r = js_sum (map geo_clicks (geo_rows_of constRows rows (col_country r))) \<and>
       col_impressions r = js_sum (map geo_impressions (geo_rows_of constRows rows (col_country r))) \<and>
       col_cost r = js_sum (map geo_cost (geo_rows_of constRows rows (col_country r))) \<and>
       col_convValue r = js_sum (map geo_convValue (geo_rows_of constRows rows (col_country r))) \<and>
       col_conversions r = js_sum (map geo_conversions (geo_rows_of constRows rows (col_country r))) \<and>
       col_allConversions r
         = js_sum (map geo_allConversions (geo_rows_of constRows rows (col_country r))))
     (top_countries_rows constRows rows)"
    unfolding list_all_iff
  proof
    fix r assume "r \<in> set (top_countries_rows constRows rows)"
    then obtain kv where kv: "kv \<in> set ?m" and r: "r = country_sheet_row kv"
      by (auto simp: top_countries_rows_def)
    from obj kv have "snd kv = geo_object (geo_rows_of constRows rows (fst kv))"
      by (simp add: exporter_objects_def geo_rows_of_def geo_country_def)
    then show "col_clicks r = js_sum (map geo_clicks (geo_rows_of constRows rows (col_country r))) \<and>
       col_impressions r = js_sum (map geo_impressions (geo_rows_of constRows rows (col_country r))) \<and>
       col_cost r = js_sum (map geo_cost (geo_rows_of constRows rows (col_country r))) \<and>
       col_convValue r = js_sum (map geo_convValue (geo_rows_of constRows rows (col_country r))) \<and>
       col_conversions r = js_sum (map geo_conversions (geo_rows_of constRows rows (col_country r))) \<and>
       col_allConversions r
         = js_sum (map geo_allConversions (geo_rows_of constRows rows (col_country r)))"
      by (simp add: r geo_object_sums)
  qed
  from 1 2 3 show ?thesis by blast
qed

subsection \<open>Daily email: the counters are the sums over the rows\<close>

lemma process_row_present:
  assumes "all_fields_present row"
  shows "process_row lm row st =
    Inr (if positive_cost row
         then accumulate (country_name_of lm (CriteriaId row)) (row_spend row) (row_impressions row)
                (row_clicks row) (row_conversions row) st
         else st)"
proof -
  from assms obtain a b c d where
    "Cost row = Str a" "Impressions row = Str b" "Clicks row = Str c" "Conversions row = Str d"
    by (auto simp: all_fields_present_def) (metis jsval.exhaust)
  then show ?thesis
    by (simp add: process_row_def replace_commas_def positive_cost_def row_spend_def
        row_impressions_def row_clicks_def row_conversions_def to_string_def)
qed

lemma accumulate_add_row:
  "accumulate n (row_spend row) (row_impressions row) (row_clicks row) (row_conversions row) st
    = (map_modify (if \<not> map_has (fst st) n then map_set (fst st) n (new_country n) else fst st) n
         (add_row row), add_row row (snd st))"
  by (simp add: accumulate_def add_row_def [abs_def] Let_def)

lemma daily_objects_step:
  assumes inv: "daily_inv lm done st" and obj: "daily_objects lm done st" and pos: "positive_cost row"
  shows "daily_objects lm (done @ [row])
    (accumulate (country_name_of lm (CriteriaId row)) (row_spend row) (row_impressions row)
       (row_clicks row) (row_conversions row) st)"
proof -
  let ?n = "country_name_of lm (CriteriaId row)"
  let ?lab = "\<lambda>row. country_name_of lm (CriteriaId row)"
  let ?acc = "filter positive_cost done"
  from inv have ord: "in_order_of (map ?lab ?acc) (map_keys (fst st))"
    by (simp add: daily_inv_def)
  from obj have objs: "\<forall>kv \<in> set (fst st).
      snd kv = fold add_row (filter (\<lambda>row. ?lab row = fst kv) ?acc) (new_country (fst kv))"
    and tot: "snd st = fold add_row ?acc zero_totals"
    by (simp_all add: daily_objects_def)
  have d: "distinct (map_keys (fst st))" using ord by (rule in_order_of_distinct)
  have keys: "set (map_keys (fst st)) = ?lab ` set ?acc" using in_order_of_set [OF ord] by simp
  have tot': "add_row row (snd st) = fold add_row (filter positive_cost (done @ [row])) zero_totals"
    using tot pos by simp
  show ?thesis
  proof (cases "map_has (fst st) ?n")
    case True
    have agg: "fst (accumulate ?n (row_spend row) (row_impressions row) (row_clicks row)
          (row_conversions row) st)
        = map (\<lambda>kv. (fst kv, if fst kv = ?n then add_row row (snd kv) else snd kv)) (fst st)"
      using True by (simp add: accumulate_add_row map_modify_distinct [OF d])
    have "\<forall>kv' \<in> set (map (\<lambda>kv. (fst kv, if fst kv = ?n then add_row row (snd kv) else snd kv)) (fst st)).
        snd kv' = fold add_row (filter (\<lambda>row. ?lab row = fst kv') (filter positive_cost (done @ [row])))
          (new_country (fst kv'))"
    proof
      fix kv' assume "kv' \<in> set (map (\<lambda>kv. (fst kv, if fst kv = ?n then add_row row (snd kv) else snd kv)) (fst st))"
      then obtain kv where kv: "kv \<in> set (fst st)"
        and kv': "kv' = (fst kv, if fst kv = ?n then add_row row (snd kv) else snd kv)"
        by auto
      from objs kv have o: "snd kv = fold add_row (filter (\<lambda>row. ?lab row = fst kv) ?acc) (new_country (fst kv))"
        by simp
      show "snd kv' = fold add_row (filter (\<lambda>row. ?lab row = fst kv') (filter positive_cost (done @ [row])))
          (new_country (fst kv'))"
        using o kv' pos by simp
    qed
    with tot' show ?thesis
      by (simp add: daily_objects_def agg) (simp add: accumulate_add_row)
  next
    case False
    then have nmem: "?n \<notin> set (map_keys (fst st))" by (simp add: map_has_iff)
    have agg: "fst (accumulate ?n (row_spend row) (row_impressions row) (row_clicks row)
          (row_conversions row) st) = fst st @ [(?n, add_row row (new_country ?n))]"
      using False by (simp add: accumulate_add_row upsert_absent)
    have "?lab x \<noteq> ?n" if "x \<in> set ?acc" for x
    proof
      assume "?lab x = ?n"
      with that have "?n \<in> ?lab ` set ?acc" by (metis imageI)
      with nmem keys show False by simp
    qed
    then have none: "filter (\<lambda>row. ?lab row = ?n) ?acc = []"
      by (simp add: filter_empty_conv)
    have other: "fst kv \<noteq> ?n" if "kv \<in> set (fst st)" for kv
      using that nmem by (force simp: map_keys_def)
    have "\<forall>kv \<in> set (fst st @ [(?n, add_row row (new_country ?n))]).
        snd kv = fold add_row (filter (\<lambda>row. ?lab row = fst kv) (filter positive_cost (done @ [row])))
          (new_country (fst kv))"
    proof
      fix kv assume "kv \<in> set (fst st @ [(?n, add_row row (new_country ?n))])"
      then consider "kv \<in> set (fst st)" | "kv = (?n, add_row row (new_country ?n))" by auto
      then show "snd kv = fold add_row (filter (\<lambda>row. ?lab row = fst kv) (filter positive_cost (done @ [row])))
          (new_country (fst kv))"
      proof cases
        case 1
        with objs have "snd kv = fold add_row (filter (\<lambda>row. ?lab row = fst kv) ?acc) (new_country (fst kv))"
          by simp
        with other [OF 1] pos show ?thesis by auto
      next
        case 2
        with none pos show ?thesis by simp
      qed
    qed
    with tot' show ?thesis
      by (simp add: daily_objects_def agg) (simp add: accumulate_add_row)
  qed
qed

lemma daily_objects_rows_loop:
  "list_all all_fields_present rows \<Longrightarrow> daily_inv lm done st \<Longrightarrow> daily_objects lm done st
    \<Longrightarrow> \<exists>st'. rows_loop lm rows st = Inr st' \<and> daily_inv lm (done @ rows) st'
          \<and> daily_objects lm (done @ rows) st'"
proof (induction rows arbitrary: "done" st)
  case Nil
  then show ?case by simp
next
  case (Cons row rows)
  from Cons.prems(1) have p: "all_fields_present row" and ps: "list_all all_fields_present rows"
    by simp_all
  let ?st1 = "if positive_cost row
         then accumulate (country_name_of lm (CriteriaId row)) (row_spend row) (row_impressions row)
                (row_clicks row) (row_conversions row) st
         else st"
  have step: "process_row lm row st = Inr ?st1" by (rule process_row_present [OF p])
  have inv1: "daily_inv lm (done @ [row]) ?st1"
    using daily_inv_rows_loop [OF Cons.prems(2), of "[row]" ?st1] step by simp
  have obj1: "daily_objects lm (done @ [row]) ?st1"
  proof (cases "positive_cost row")
    case True
    with daily_objects_step [OF Cons.prems(2) Cons.prems(3) True] show ?thesis by simp
  next
    case False
    with Cons.prems(3) show ?thesis by (simp add: daily_objects_def)
  qed
  from Cons.IH [OF ps inv1 obj1] step show ?case by simp
qed

lemma fold_add_row_sums:
  "totals.spend (fold add_row rs t) = js_add (totals.spend t) (js_sum (map row_spend rs))"
  "totals.impressions (fold add_row rs t) = js_add (totals.impressions t) (js_sum (map row_impressions rs))"
  "totals.clicks (fold add_row rs t) = js_add (totals.clicks t) (js_sum (map row_clicks rs))"
  "totals.conversions (fold add_row rs t) = js_add (totals.conversions t) (js_sum (map row_conversions rs))"
  by (induction rs arbitrary: t; simp add: add_row_def add_metrics_def js_add_assoc)+

theorem daily_report_sums:
  assumes "list_all all_fields_present rows"
  shows
  "totals.spend (report_totals (getCountryData locationRows rows))
     = js_sum (map row_spend (filter positive_cost rows)) \<and>
   totals.impressions (report_totals (getCountryData locationRows rows))
     = js_sum (map row_impressions (filter positive_cost rows)) \<and>
   totals.clicks (report_totals (getCountryData locationRows rows))
     = js_sum (map row_clicks (filter positive_cost rows)) \<and>
   totals.conversions (report_totals (getCountryData locationRows rows))
     = js_sum (map row_conversions (filter positive_cost rows)) \<and>
   distinct (map name (countries (getCountryData locationRows rows))) \<and>
   set (map name (countries (getCountryData locationRows rows)))
     = row_country locationRows ` set (filter positive_cost rows) \<and>
   list_all (\<lambda>c.
       totals.spend c = js_sum (map row_spend (target_rows_of locationRows rows (name c))) \<and>
       totals.impressions c = js_sum (map row_impressions (target_rows_of locationRows rows (name c))) \<and>
       totals.clicks c = js_sum (map row_clicks (target_rows_of locationRows rows (name c))) \<and>
       totals.conversions c = js_sum (map row_conversions (target_rows_of locationRows rows (name c))))
     (countries (getCountryData locationRows rows))"
proof -
  let ?lm = "locationMap_of locationRows"
  let ?lab = "\<lambda>row. country_name_of ?lm (CriteriaId row)"
  let ?acc = "filter positive_cost rows"
  have init: "daily_objects ?lm [] ([], zero_totals)" by (simp add: daily_objects_def)
  from daily_objects_rows_loop [OF assms daily_inv_init init]
  obtain st where loop: "rows_loop ?lm rows ([], zero_totals) = Inr st"
    and inv: "daily_inv ?lm rows st" and obj: "daily_objects ?lm rows st"
    by auto
  let ?xs = "map with_ratios (map_values (fst st))"
  have r: "getCountryData locationRows rows
      = \<lparr>countries = js_sort by_spend_desc ?xs, report_totals = snd st\<rparr>"
    using loop by (simp add: getCountryData_def)
  from inv have ord: "in_order_of (map ?lab ?acc) (map_keys (fst st))"
    and vals: "\<forall>kv \<in> set (fst st). name (snd kv) = fst kv \<and> (\<exists>r. 0 < r \<and> totals.spend (snd kv) = Num r)"
    by (simp_all add: daily_inv_def)
  from obj have objs: "\<forall>kv \<in> set (fst st).
      snd kv = fold add_row (filter (\<lambda>row. ?lab row = fst kv) ?acc) (new_country (fst kv))"
    and tot: "snd st = fold add_row ?acc zero_totals"
    by (simp_all add: daily_objects_def)
  have names: "map name ?xs = map_keys (fst st)"
    using vals by (simp add: map_values_def map_keys_def)
  have t: "totals.spend (snd st) = js_sum (map row_spend ?acc)"
    "totals.impressions (snd st) = js_sum (map row_impressions ?acc)"
    "totals.clicks (snd st) = js_sum (map row_clicks ?acc)"
    "totals.conversions (snd st) = js_sum (map row_conversions ?acc)"
    by (simp_all add: tot fold_add_row_sums zero_totals_def)
  have "mset (map name (js_sort by_spend_desc ?xs)) = mset (map name ?xs)"
    by (simp only: mset_map mset_js_sort)
  then have "mset (map name (js_sort by_spend_desc ?xs)) = mset (map_keys (fst st))"
    by (simp only: names)
  then have d: "distinct (map name (js_sort by_spend_desc ?xs))"
    using in_order_of_distinct [OF ord] by (metis mset_eq_imp_distinct_iff)
  have "set (map name (js_sort by_spend_desc ?xs)) = set (map name ?xs)"
    by (simp only: set_map set_js_sort)
  also have "\<dots> = set (map_keys (fst st))" by (simp only: names)
  also have "\<dots> = set (map ?lab ?acc)" by (rule in_order_of_set [OF ord])
  also have "\<dots> = row_country locationRows ` set ?acc"
    by (simp add: row_country_def [abs_def])
  finally have s: "set (map name (js_sort by_spend_desc ?xs)) = row_country locationRows ` set ?acc" .
  have l: "list_all (\<lambda>c.
       totals.spend c = js_sum (map row_spend (target_rows_of locationRows rows (name c))) \<and>
       totals.impressions c = js_sum (map row_impressions (target_rows_of locationRows rows (name c))) \<and>
       totals.clicks c = js_sum (map row_clicks (target_rows_of locationRows rows (name c))) \<and>
       totals.conversions c = js_sum (map row_conversions (target_rows_of locationRows rows (name c))))
     (js_sort by_spend_desc ?xs)"
    unfolding list_all_iff
  proof
    fix c assume "c \<in> set (js_sort by_spend_desc ?xs)"
    then obtain kv where kv: "kv \<in> set (fst st)" and c: "c = with_ratios (snd kv)"
      by (auto simp: map_values_def)
    from vals kv have n: "name (snd kv) = fst kv" by simp
    from objs kv have "snd kv = fold add_row (target_rows_of locationRows rows (fst kv)) (new_country (fst kv))"
      by (simp add: target_rows_of_def row_country_def)
    then have
      "totals.spend (snd kv) = js_sum (map row_spend (target_rows_of locationRows rows (fst kv)))"
      "totals.impressions (snd kv) = js_sum (map row_impressions (target_rows_of locationRows rows (fst kv)))"
      "totals.clicks (snd kv) = js_sum (map row_clicks (target_rows_of locationRows rows (fst kv)))"
      "totals.conversions (snd kv) = js_sum (map row_conversions (target_rows_of locationRows rows (fst kv)))"
      using fold_add_row_sums [of "target_rows_of locationRows rows (fst kv)" "new_country (fst kv)"]
      by (simp_all add: new_country_def)
    then show "totals.spend c = js_sum (map row_spend (target_rows_of locationRows rows (name c))) \<and>
       totals.impressions c = js_sum (map row_impressions (target_rows_of locationRows rows (name c))) \<and>
       totals.clicks c = js_sum (map row_clicks (target_rows_of locationRows rows (name c))) \<and>
       totals.conversions c = js_sum (map row_conversions (target_rows_of locationRows rows (name c)))"
      by (simp add: c n)
  qed
  from t d s l show ?thesis by (simp add: r)
qed

theorem daily_report_sums_witness:
  "list_all all_fields_present example_target_rows \<and>
   totals.spend (report_totals (getCountryData example_locations example_target_rows))
     = js_sum (map row_spend (filter positive_cost example_target_rows)) \<and>
   js_sum (map row_spend (filter positive_cost example_target_rows)) = Num 120 \<and>
   map row_spend (target_rows_of example_locations example_target_rows ''US'') = [Num 50, Num 30]"
proof -
  have 1: "list_all all_fields_present example_target_rows"
    by (simp add: example_defs all_fields_present_def)
  have 2: "js_sum (map row_spend (filter positive_cost example_target_rows)) = Num 120"
    by (simp add: example_defs positive_cost_def row_spend_def parse_defs)
  have 3: "map row_spend (target_rows_of example_locations example_target_rows ''US'') = [Num 50, Num 30]"
    by (simp add: example_defs target_rows_of_def row_country_def locationMap_of_def
        country_name_of_def positive_cost_def row_spend_def parse_defs)
  from daily_report_sums [OF 1, of example_locations] 1 2 3 show ?thesis by blast
qed

theorem exporter_ratios_guarded_witness:
  "list_all ratios_guarded (top_countries_rows example_locations example_geo_rows) \<and>
   map col_ctr (top_countries_rows example_locations example_geo_rows) = [Num (8 / 1100), Num (4 / 200)] \<and>
   map col_ctr (top_countries_rows example_locations
     [\<lparr>country_criterion_id = ''2840'', metrics_clicks = Str ''0'', metrics_impressions = Str ''0'',
        metrics_cost_micros = Str ''1000000'', metrics_conversions_value = Str ''0'',
        metrics_conversions = Str ''0'', metrics_all_conversions = Str ''0''\<rparr>]) = [Num 0]"
proof (intro conjI)
  show "list_all ratios_guarded (top_countries_rows example_locations example_geo_rows)"
    by (rule exporter_ratios_guarded)
  show "map col_ctr (top_countries_rows example_locations example_geo_rows) = [Num (8 / 1100), Num (4 / 200)]"
    by (simp add: example_defs exporter_defs parse_defs Let_def)
  show "map col_ctr (top_countries_rows example_locations
     [\<lparr>country_criterion_id = ''2840'', metrics_clicks = Str ''0'', metrics_impressions = Str ''0'',
        metrics_cost_micros = Str ''1000000'', metrics_conversions_value = Str ''0'',
        metrics_conversions = Str ''0'', metrics_all_conversions = Str ''0''\<rparr>]) = [Num 0]"
    by (simp add: example_defs exporter_defs parse_defs Let_def)
qed

theorem summary_row_ratios_guarded_witness:
  "ratios_guarded (summary_row (top_countries_rows example_locations
     [\<lparr>country_criterion_id = ''2840'', metrics_clicks = Str ''0'', metrics_impressions = Str ''0'',
        metrics_cost_micros = Str ''1000000'', metrics_conversions_value = Str ''0'',
        metrics_conversions = Str ''0'', metrics_all_conversions = Str ''0''\<rparr>])) \<and>
   (\<lambda>r. (col_impressions r, col_ctr r, col_cost r)) (summary_row (top_countries_rows example_locations
     [\<lparr>country_criterion_id = ''2840'', metrics_clicks = Str ''0'', metrics_impressions = Str ''0'',
        metrics_cost_micros = Str ''1000000'', metrics_conversions_value = Str ''0'',
        metrics_conversions = Str ''0'', metrics_all_conversions = Str ''0''\<rparr>])) = (Num 0, Num 0, Num 1)"
proof (intro conjI)
  show "ratios_guarded (summary_row (top_countries_rows example_locations
     [\<lparr>country_criterion_id = ''2840'', metrics_clicks = Str ''0'', metrics_impressions = Str ''0'',
        metrics_cost_micros = Str ''1000000'', metrics_conversions_value = Str ''0'',
        metrics_conversions = Str ''0'', metrics_all_conversions = Str ''0''\<rparr>]))"
    by (rule summary_row_ratios_guarded)
  show "(\<lambda>r. (col_impressions r, col_ctr r, col_cost r)) (summary_row (top_countries_rows example_locations
     [\<lparr>country_criterion_id = ''2840'', metrics_clicks = Str ''0'', metrics_impressions = Str ''0'',
        metrics_cost_micros = Str ''1000000'', metrics_conversions_value = Str ''0'',
        metrics_conversions = Str ''0'', metrics_all_conversions = Str ''0''\<rparr>])) = (Num 0, Num 0, Num 1)"
    by (simp add: summary_row_def sheet_iferror_div_def example_defs exporter_defs parse_defs Let_def)
qed

theorem exporter_malformed_fields_example:
  "map (\<lambda>r. (col_country r, col_clicks r, col_impressions r, col_cost r))
     (top_countries_rows example_locations
       [\<lparr>country_criterion_id = ''2840'', metrics_clicks = Str ''5'', metrics_impressions = Str ''--'',
          metrics_cost_micros = Str ''2500000'', metrics_conversions_value = Undefined,
          metrics_conversions = Str ''1'', metrics_all_conversions = Str ''1''\<rparr>])
   = [(''US'', Num 5, Num 0, Num (5 / 2))]"
  by (simp add: example_defs exporter_defs parse_defs Let_def)

theorem cost_micros_to_currency: "geo_cost
     \<lparr>country_criterion_id = ''2840'', metrics_clicks = Str ''5'', metrics_impressions = Str ''9'',
      metrics_cost_micros = Str ''2500000'', metrics_conversions_value = Str ''0'',
      metrics_conversions = Str ''1'', metrics_all_conversions = Str ''1''\<rparr> = Num (5 / 2)"
  by (simp add: geo_cost_def parse_defs)

end
